theory Spec2Isabelle
  imports Complex_Main "HOL-Library.AList" "HOL-Library.Multiset"
begin

section \<open>Strings of the runtime\<close>

text \<open>
  A header or cell text is a \<^typ>\<open>string\<close>: a list of code units below 256, read as the
  code points U+0000 to U+00FF. \<open>isWhiteSpace\<close> is the class the regular expression
  \<^verbatim>\<open>\s\<close> and \<^verbatim>\<open>String.prototype.trim\<close> share (WhiteSpace and LineTerminator of the
  language definition) cut down to that range: TAB, LF, VT, FF, CR, SP and NBSP.
\<close>

definition isWhiteSpace :: "char \<Rightarrow> bool" where
  "isWhiteSpace c = (of_char c \<in> {9, 10, 11, 12, 13, 32, 160 :: nat})"

definition trimStart :: "string \<Rightarrow> string" where
  "trimStart s = dropWhile isWhiteSpace s"

definition trim :: "string \<Rightarrow> string" where
  "trim s = rev (dropWhile isWhiteSpace (rev (dropWhile isWhiteSpace s)))"

text \<open>
  \<^verbatim>\<open>toLowerCase\<close> on one code unit of the range: A to Z, and the Latin-1 capitals
  U+00C0 to U+00DE without the multiplication sign U+00D7, move up by 32.
\<close>

definition toLowerChar :: "char \<Rightarrow> char" where
  "toLowerChar c =
     (let n = (of_char c :: nat) in
      if (65 \<le> n \<and> n \<le> 90) \<or> (192 \<le> n \<and> n \<le> 222 \<and> n \<noteq> 215)
      then char_of (n + 32) else c)"

definition toLowerCase :: "string \<Rightarrow> string" where
  "toLowerCase s = map toLowerChar s"

text \<open>\<^verbatim>\<open>.replace(/\s+/g, '_')\<close>: every maximal run of white space becomes one underscore.\<close>

function replaceSpaceRuns :: "string \<Rightarrow> string" where
  "replaceSpaceRuns [] = []"
| "replaceSpaceRuns (c # cs) =
     (if isWhiteSpace c then CHR ''_'' # replaceSpaceRuns (dropWhile isWhiteSpace cs)
      else c # replaceSpaceRuns cs)"
  by pat_completeness auto
termination
  by (relation "measure length") (auto simp: less_Suc_eq_le length_dropWhile_le)

text \<open>\<^verbatim>\<open>.replace(/[^a-z0-9_]/g, '')\<close> keeps exactly the code units of \<^verbatim>\<open>[a-z0-9_]\<close>.\<close>

definition isFieldChar :: "char \<Rightarrow> bool" where
  "isFieldChar c =
     (let n = (of_char c :: nat) in
      (97 \<le> n \<and> n \<le> 122) \<or> (48 \<le> n \<and> n \<le> 57) \<or> n = 95)"

section \<open>Field normalizer (fixedFileParser.server.ts, normalizeFieldName)\<close>

definition normalizeFieldName :: "string \<Rightarrow> string" where
  "normalizeFieldName fieldName =
     filter isFieldChar (replaceSpaceRuns (toLowerCase (trim fieldName)))"

section \<open>Statistics of the aggregation engine (root.tsx, calculateMetrics)\<close>

text \<open>
  An allowed amount is a finite number of the runtime; it is modelled by the rational it
  denotes, with exact arithmetic (rounding of the sum and of the division is left out).
  The values come from the nullable Float column \<^verbatim>\<open>allowedAmount\<close> after the nulls are
  filtered away.
\<close>

definition sumAmounts :: "rat list \<Rightarrow> rat" where
  "sumAmounts xs = foldl (\<lambda>acc v. acc + v) 0 xs"

definition average :: "rat list \<Rightarrow> rat" where
  "average xs = (if length xs > 0 then sumAmounts xs / of_nat (length xs) else 0)"

text \<open>\<^verbatim>\<open>Math.min(...validAmounts)\<close> and \<^verbatim>\<open>Math.max(...validAmounts)\<close>, guarded by the length test.\<close>

definition minAmount :: "rat list \<Rightarrow> rat" where
  "minAmount xs = (if length xs > 0 then fold min (tl xs) (hd xs) else 0)"

definition maxAmount :: "rat list \<Rightarrow> rat" where
  "maxAmount xs = (if length xs > 0 then fold max (tl xs) (hd xs) else 0)"

text \<open>
  \<^verbatim>\<open>[...validAmounts].sort((a, b) => a - b)\<close> is the ascending sort; \<open>middle\<close> is
  \<^verbatim>\<open>Math.floor(sorted.length / 2)\<close>.
\<close>

definition median :: "rat list \<Rightarrow> rat" where
  "median xs =
     (let sorted = sort xs;
          middle = length sorted div 2
      in if length sorted > 0
         then if length sorted mod 2 = 0
              then (sorted ! (middle - 1) + sorted ! middle) / 2
              else sorted ! middle
         else 0)"

text \<open>
  The frequency tally is an object used as a map: \<^verbatim>\<open>frequency[val]\<close> turns the number
  into the property name \<^verbatim>\<open>String(val)\<close>, and the loop reads it back with
  \<^verbatim>\<open>parseFloat\<close>. Number-to-string is one-to-one on finite numbers and
  \<^verbatim>\<open>parseFloat\<close> inverts it, so the model keys the tally by the number itself. The
  object is an association list in insertion order; \<open>AList.update\<close> keeps the place
  of a key that is already there, as assignment to an existing property does.

  \<^verbatim>\<open>Object.entries\<close> enumerates own properties in the order of the language
  definition (OrdinaryOwnPropertyKeys): first the keys that are array indices, the
  canonical numeric strings of the integers from 0 to 2^32 - 2, in ascending numeric
  order; then the other string keys in the order they were created.
\<close>

definition isArrayIndex :: "rat \<Rightarrow> bool" where
  "isArrayIndex v = (v = of_int \<lfloor>v\<rfloor> \<and> 0 \<le> v \<and> v < 4294967295)"

definition tally :: "(rat \<times> nat) list \<Rightarrow> rat \<Rightarrow> (rat \<times> nat) list" where
  "tally frequency v =
     AList.update v ((case map_of frequency v of None \<Rightarrow> 0 | Some n \<Rightarrow> n) + 1) frequency"

definition frequencyOf :: "rat list \<Rightarrow> (rat \<times> nat) list" where
  "frequencyOf xs = foldl tally [] xs"

definition entries :: "(rat \<times> nat) list \<Rightarrow> (rat \<times> nat) list" where
  "entries obj =
     sort_key fst (filter (\<lambda>e. isArrayIndex (fst e)) obj)
       @ filter (\<lambda>e. \<not> isArrayIndex (fst e)) obj"

fun modeLoop :: "(rat \<times> nat) list \<Rightarrow> rat \<times> nat \<Rightarrow> rat \<times> nat" where
  "modeLoop [] (mode, maxFrequency) = (mode, maxFrequency)"
| "modeLoop ((v, freq) # es) (mode, maxFrequency) =
     (if freq > maxFrequency then modeLoop es (v, freq) else modeLoop es (mode, maxFrequency))"

definition mode :: "rat list \<Rightarrow> rat" where
  "mode xs = fst (modeLoop (entries (frequencyOf xs)) (0, 0))"

text \<open>
  For stating the tie-break: the distinct values of a list in order of first occurrence,
  the order in which the tally enumerates them, and "no value is more frequent".
\<close>

fun firstOccurrences :: "'a list \<Rightarrow> 'a list" where
  "firstOccurrences [] = []"
| "firstOccurrences (x # xs) = x # firstOccurrences (removeAll x xs)"

definition iterationOrder :: "rat list \<Rightarrow> rat list" where
  "iterationOrder xs =
     sort (filter isArrayIndex (firstOccurrences xs))
       @ filter (\<lambda>v. \<not> isArrayIndex v) (firstOccurrences xs)"

definition isMostFrequent :: "rat list \<Rightarrow> rat \<Rightarrow> bool" where
  "isMostFrequent xs v = (\<forall>w \<in> set xs. count_list xs w \<le> count_list xs v)"

section \<open>Values of the runtime\<close>

text \<open>
  A number of the runtime is a finite value, NaN or one of the two infinities. A finite
  value is modelled by the rational it denotes (no rounding, no negative zero). A
  \<^verbatim>\<open>Date\<close> holds a time value: milliseconds since 1970-01-01T00:00:00Z, or NaN for
  an invalid date. A raw cell, a cleaned field and a filter value are all values of the
  one dynamic type: what the two readers put into a cell (text, number, boolean, date,
  null), \<^verbatim>\<open>undefined\<close> for a missing property, and plain objects (the date ranges of
  a filter set). Arrays, functions and symbols are not modelled.
\<close>

datatype js_number = Num rat | NaN | PosInfinity | NegInfinity

datatype js_date = DateAt int | InvalidDate

datatype js_value =
    JUndefined
  | JNull
  | JBool bool
  | JNum js_number
  | JStr string
  | JDate js_date
  | JObj "(string \<times> js_value) list"

text \<open>
  What the repository's code takes from its runtime and cannot be computed from the
  model: the text of a number that is not an integer below 10^21 in magnitude, the text
  of a valid date, the result of \<^verbatim>\<open>new Date(string)\<close> for free-form text, and the local
  time zone, taken as a fixed offset in milliseconds (no daylight-saving transitions).
\<close>

record js_env =
  numberText :: "rat \<Rightarrow> string"
  dateText :: "int \<Rightarrow> string"
  dateFromText :: "string \<Rightarrow> js_date"
  localTZA :: int

subsection \<open>Truthiness, comparison\<close>

fun truthy :: "js_value \<Rightarrow> bool" where
  "truthy JUndefined = False"
| "truthy JNull = False"
| "truthy (JBool b) = b"
| "truthy (JNum n) = (n \<noteq> NaN \<and> n \<noteq> Num 0)"
| "truthy (JStr s) = (s \<noteq> [])"
| "truthy (JDate d) = True"
| "truthy (JObj kvs) = True"

text \<open>\<^verbatim>\<open>x < c\<close> and \<^verbatim>\<open>x > c\<close> against a finite constant: false whenever \<open>x\<close> is NaN.\<close>

fun numLess :: "js_number \<Rightarrow> rat \<Rightarrow> bool" where
  "numLess (Num r) c = (r < c)"
| "numLess NaN c = False"
| "numLess PosInfinity c = False"
| "numLess NegInfinity c = True"

fun numGreater :: "js_number \<Rightarrow> rat \<Rightarrow> bool" where
  "numGreater (Num r) c = (c < r)"
| "numGreater NaN c = False"
| "numGreater PosInfinity c = True"
| "numGreater NegInfinity c = False"

subsection \<open>Numbers from text\<close>

definition isDigit :: "char \<Rightarrow> bool" where
  "isDigit c = (48 \<le> (of_char c :: nat) \<and> (of_char c :: nat) \<le> 57)"

definition digitValue :: "char \<Rightarrow> nat" where
  "digitValue c = of_char c - 48"

text \<open>The value of a run of decimal digits, most significant first; the empty run is 0.\<close>

definition digitsValue :: "string \<Rightarrow> nat" where
  "digitsValue ds = foldl (\<lambda>acc c. 10 * acc + digitValue c) 0 ds"

text \<open>
  The optional exponent part of a decimal literal: \<^verbatim>\<open>e\<close> or \<^verbatim>\<open>E\<close>, an optional sign and
  at least one digit. The result is the exponent and the text after it; when the text
  does not start with a complete exponent part nothing is consumed.
\<close>

definition exponentPart :: "string \<Rightarrow> int \<times> string" where
  "exponentPart s =
     (case s of
        [] \<Rightarrow> (0, s)
      | e # r \<Rightarrow>
          if e = CHR ''e'' \<or> e = CHR ''E'' then
            (let (neg, r') = (case r of
                                [] \<Rightarrow> (False, r)
                              | c # r'' \<Rightarrow> if c = CHR ''-'' then (True, r'')
                                           else if c = CHR ''+'' then (False, r'')
                                           else (False, r));
                 ds = takeWhile isDigit r'
             in if ds = [] then (0, s)
                else ((if neg then - int (digitsValue ds) else int (digitsValue ds)),
                      dropWhile isDigit r'))
          else (0, s))"

definition scale10 :: "rat \<Rightarrow> int \<Rightarrow> rat" where
  "scale10 r e = (if 0 \<le> e then r * 10 ^ nat e else r / 10 ^ nat (- e))"

text \<open>
  The longest prefix of the text that is a StrUnsignedDecimalLiteral of the language
  definition (\<^verbatim>\<open>Infinity\<close>, digits with an optional fraction, or a fraction that starts
  with the point, each of the last two with an optional exponent), with its value and
  the text that is left; \<open>None\<close> when no prefix is one.
\<close>

definition unsignedDecimalPrefix :: "string \<Rightarrow> (js_number \<times> string) option" where
  "unsignedDecimalPrefix s =
     (if take 8 s = ''Infinity'' then Some (PosInfinity, drop 8 s)
      else
        (let ip = takeWhile isDigit s;
             r1 = dropWhile isDigit s;
             (hasPoint, fp, r2) =
               (case r1 of
                  [] \<Rightarrow> (False, [], r1)
                | c # r \<Rightarrow> if c = CHR ''.'' then (True, takeWhile isDigit r, dropWhile isDigit r)
                           else (False, [], r1))
         in if ip = [] \<and> fp = [] then None
            else
              (let (e, r3) = exponentPart r2;
                   mantissa = of_nat (digitsValue ip)
                                + of_nat (digitsValue fp) / 10 ^ length fp
               in Some (Num (scale10 mantissa e), r3))))"

fun negateNumber :: "js_number \<Rightarrow> js_number" where
  "negateNumber (Num r) = Num (- r)"
| "negateNumber NaN = NaN"
| "negateNumber PosInfinity = NegInfinity"
| "negateNumber NegInfinity = PosInfinity"

text \<open>The same with the optional sign of a StrDecimalLiteral.\<close>

definition decimalPrefix :: "string \<Rightarrow> (js_number \<times> string) option" where
  "decimalPrefix s =
     (case s of
        [] \<Rightarrow> None
      | c # r \<Rightarrow>
          if c = CHR ''-'' then
            (case unsignedDecimalPrefix r of
               None \<Rightarrow> None
             | Some (n, rest) \<Rightarrow> Some (negateNumber n, rest))
          else if c = CHR ''+'' then unsignedDecimalPrefix r
          else unsignedDecimalPrefix s)"

text \<open>
  \<^verbatim>\<open>parseFloat(text)\<close>: leading white space is skipped, the longest decimal-literal
  prefix is read and whatever follows it is ignored; NaN when there is no such prefix.
\<close>

definition parseFloat :: "string \<Rightarrow> js_number" where
  "parseFloat s = (case decimalPrefix (trimStart s) of None \<Rightarrow> NaN | Some (n, rest) \<Rightarrow> n)"

text \<open>
  \<^verbatim>\<open>Number(text)\<close>: the whole trimmed text must be a numeric literal; the empty text is
  0. Besides the decimal literals there are the binary, octal and hexadecimal integer
  literals.
\<close>

definition radixDigit :: "char \<Rightarrow> nat option" where
  "radixDigit c =
     (let n = (of_char c :: nat) in
      if 48 \<le> n \<and> n \<le> 57 then Some (n - 48)
      else if 97 \<le> n \<and> n \<le> 102 then Some (n - 87)
      else if 65 \<le> n \<and> n \<le> 70 then Some (n - 55)
      else None)"

definition radixValue :: "nat \<Rightarrow> string \<Rightarrow> js_number" where
  "radixValue b ds =
     (if ds \<noteq> [] \<and> (\<forall>c \<in> set ds. case radixDigit c of None \<Rightarrow> False | Some d \<Rightarrow> d < b)
      then Num (of_nat (foldl (\<lambda>acc c. b * acc + the (radixDigit c)) 0 ds))
      else NaN)"

definition stringToNumber :: "string \<Rightarrow> js_number" where
  "stringToNumber s =
     (let t = trim s in
      if t = [] then Num 0
      else if take 2 t = ''0x'' \<or> take 2 t = ''0X'' then radixValue 16 (drop 2 t)
      else if take 2 t = ''0o'' \<or> take 2 t = ''0O'' then radixValue 8 (drop 2 t)
      else if take 2 t = ''0b'' \<or> take 2 t = ''0B'' then radixValue 2 (drop 2 t)
      else (case decimalPrefix t of
              Some (n, []) \<Rightarrow> n
            | _ \<Rightarrow> NaN))"

fun toNumber :: "js_value \<Rightarrow> js_number" where
  "toNumber JUndefined = NaN"
| "toNumber JNull = Num 0"
| "toNumber (JBool b) = (if b then Num 1 else Num 0)"
| "toNumber (JNum n) = n"
| "toNumber (JStr s) = stringToNumber s"
| "toNumber (JDate (DateAt t)) = Num (of_int t)"
| "toNumber (JDate InvalidDate) = NaN"
| "toNumber (JObj kvs) = NaN"

text \<open>The global \<^verbatim>\<open>isNaN(v)\<close> converts its argument to a number first.\<close>

definition isNaN :: "js_value \<Rightarrow> bool" where
  "isNaN v = (toNumber v = NaN)"

subsection \<open>Text from values\<close>

function natText :: "nat \<Rightarrow> string" where
  "natText n = (if n < 10 then [char_of (48 + n)] else natText (n div 10) @ [char_of (48 + n mod 10)])"
  by pat_completeness auto
termination
  by (relation "measure id") auto

declare natText.simps [simp del]

definition numberToString :: "js_env \<Rightarrow> js_number \<Rightarrow> string" where
  "numberToString env n =
     (case n of
        NaN \<Rightarrow> ''NaN''
      | PosInfinity \<Rightarrow> ''Infinity''
      | NegInfinity \<Rightarrow> ''-Infinity''
      | Num r \<Rightarrow>
          if r = of_int \<lfloor>r\<rfloor> \<and> \<bar>r\<bar> < 10 ^ 21
          then (if r < 0 then ''-'' else '''') @ natText (nat \<bar>\<lfloor>r\<rfloor>\<bar>)
          else numberText env r)"

text \<open>\<^verbatim>\<open>String(v)\<close>; a plain object prints as \<^verbatim>\<open>[object Object]\<close>.\<close>

fun toString :: "js_env \<Rightarrow> js_value \<Rightarrow> string" where
  "toString env JUndefined = ''undefined''"
| "toString env JNull = ''null''"
| "toString env (JBool b) = (if b then ''true'' else ''false'')"
| "toString env (JNum n) = numberToString env n"
| "toString env (JStr s) = s"
| "toString env (JDate (DateAt t)) = dateText env t"
| "toString env (JDate InvalidDate) = ''Invalid Date''"
| "toString env (JObj kvs) = ''[object Object]''"

section \<open>Dates of the runtime\<close>

text \<open>
  The day and time arithmetic of the language definition, on integer time values:
  \<open>dayFromYear y\<close> is the day number of January 1st of year \<open>y\<close> (day 0 is
  1970-01-01), \<open>makeDay\<close> is MakeDay (a month index outside 0..11 carries into the year,
  a day of the month outside the month carries into the following or preceding days),
  \<open>timeClip\<close> is TimeClip.
\<close>

definition msPerDay :: int where
  "msPerDay = 86400000"

definition dayFromYear :: "int \<Rightarrow> int" where
  "dayFromYear y =
     365 * (y - 1970) + (y - 1969) div 4 - (y - 1901) div 100 + (y - 1601) div 400"

definition inLeapYear :: "int \<Rightarrow> bool" where
  "inLeapYear y = (y mod 4 = 0 \<and> (y mod 100 \<noteq> 0 \<or> y mod 400 = 0))"

text \<open>Days of the year before the first day of month \<open>m\<close> (0 is January).\<close>

definition monthStart :: "int \<Rightarrow> int \<Rightarrow> int" where
  "monthStart y m =
     (let leap = (if inLeapYear y then 1 else 0) in
      if m = 0 then 0
      else if m = 1 then 31
      else if m = 2 then 59 + leap
      else if m = 3 then 90 + leap
      else if m = 4 then 120 + leap
      else if m = 5 then 151 + leap
      else if m = 6 then 181 + leap
      else if m = 7 then 212 + leap
      else if m = 8 then 243 + leap
      else if m = 9 then 273 + leap
      else if m = 10 then 304 + leap
      else 334 + leap)"

definition makeDay :: "int \<Rightarrow> int \<Rightarrow> int \<Rightarrow> int" where
  "makeDay y m dt = (let ym = y + m div 12; mn = m mod 12 in dayFromYear ym + monthStart ym mn + dt - 1)"

definition makeDate :: "int \<Rightarrow> int \<Rightarrow> int" where
  "makeDate d tm = d * msPerDay + tm"

definition timeClip :: "int \<Rightarrow> js_date" where
  "timeClip t = (if \<bar>t\<bar> \<le> 8640000000000000 then DateAt t else InvalidDate)"

text \<open>
  The year of a day number: the largest \<open>y\<close> with \<open>dayFromYear y \<le> d\<close>, found from an
  estimate that is off by at most one.
\<close>

definition yearFromDay :: "int \<Rightarrow> int" where
  "yearFromDay d =
     (let y = 1970 + (d * 400) div 146097 in
      if dayFromYear (y + 1) \<le> d then y + 1
      else if dayFromYear y \<le> d then y
      else y - 1)"

definition monthFromDay :: "int \<Rightarrow> int" where
  "monthFromDay d =
     (let y = yearFromDay d; n = d - dayFromYear y in
      if n < monthStart y 1 then 0
      else if n < monthStart y 2 then 1
      else if n < monthStart y 3 then 2
      else if n < monthStart y 4 then 3
      else if n < monthStart y 5 then 4
      else if n < monthStart y 6 then 5
      else if n < monthStart y 7 then 6
      else if n < monthStart y 8 then 7
      else if n < monthStart y 9 then 8
      else if n < monthStart y 10 then 9
      else if n < monthStart y 11 then 10
      else 11)"

definition dateFromDay :: "int \<Rightarrow> int" where
  "dateFromDay d =
     (let y = yearFromDay d in d - dayFromYear y - monthStart y (monthFromDay d) + 1)"

text \<open>Local time of a fixed-offset zone, and back.\<close>

definition localTime :: "js_env \<Rightarrow> int \<Rightarrow> int" where
  "localTime env t = t + localTZA env"

definition utcTime :: "js_env \<Rightarrow> int \<Rightarrow> int" where
  "utcTime env t = t - localTZA env"

text \<open>
  \<^verbatim>\<open>getFullYear()\<close>, \<^verbatim>\<open>getMonth()\<close> and \<^verbatim>\<open>getDate()\<close>: the local calendar fields of a
  date, NaN (here \<open>None\<close>) for an invalid one.
\<close>

fun getFullYear :: "js_env \<Rightarrow> js_date \<Rightarrow> int option" where
  "getFullYear env (DateAt t) = Some (yearFromDay (localTime env t div msPerDay))"
| "getFullYear env InvalidDate = None"

fun getMonth :: "js_env \<Rightarrow> js_date \<Rightarrow> int option" where
  "getMonth env (DateAt t) = Some (monthFromDay (localTime env t div msPerDay))"
| "getMonth env InvalidDate = None"

fun getDate :: "js_env \<Rightarrow> js_date \<Rightarrow> int option" where
  "getDate env (DateAt t) = Some (dateFromDay (localTime env t div msPerDay))"
| "getDate env InvalidDate = None"

text \<open>Truncation toward zero (ToIntegerOrInfinity on a finite number).\<close>

definition truncateNum :: "rat \<Rightarrow> int" where
  "truncateNum r = (if 0 \<le> r then \<lfloor>r\<rfloor> else \<lceil>r\<rceil>)"

text \<open>
  \<^verbatim>\<open>new Date(year, monthIndex, day)\<close> with integer arguments: local midnight of that
  day; a year from 0 to 99 means 1900 + year.
\<close>

definition newDateYMD :: "js_env \<Rightarrow> int \<Rightarrow> int \<Rightarrow> int \<Rightarrow> js_date" where
  "newDateYMD env y m d =
     (let yr = (if 0 \<le> y \<and> y \<le> 99 then 1900 + y else y)
      in timeClip (utcTime env (makeDate (makeDay yr m d) 0)))"

text \<open>\<^verbatim>\<open>new Date(number)\<close>: the time value is the number, truncated and clipped.\<close>

fun newDateNumber :: "js_number \<Rightarrow> js_date" where
  "newDateNumber (Num r) = timeClip (truncateNum r)"
| "newDateNumber NaN = InvalidDate"
| "newDateNumber PosInfinity = InvalidDate"
| "newDateNumber NegInfinity = InvalidDate"

text \<open>
  \<^verbatim>\<open>d.setDate(n)\<close>: the day of the month of the local date is replaced by the
  truncated \<open>n\<close>, year, month and time within the day are kept. An invalid date stays
  invalid, and so does any date when \<open>n\<close> is not finite.
\<close>

fun setDate :: "js_env \<Rightarrow> js_date \<Rightarrow> js_number \<Rightarrow> js_date" where
  "setDate env (DateAt t) (Num n) =
     (let lt = localTime env t;
          day = lt div msPerDay;
          newDate = makeDate (makeDay (yearFromDay day) (monthFromDay day) (truncateNum n))
                             (lt mod msPerDay)
      in timeClip (utcTime env newDate))"
| "setDate env d n = InvalidDate"

fun addNumber :: "js_number \<Rightarrow> js_number \<Rightarrow> js_number" where
  "addNumber (Num a) (Num b) = Num (a + b)"
| "addNumber NaN b = NaN"
| "addNumber a NaN = NaN"
| "addNumber PosInfinity NegInfinity = NaN"
| "addNumber NegInfinity PosInfinity = NaN"
| "addNumber PosInfinity b = PosInfinity"
| "addNumber a PosInfinity = PosInfinity"
| "addNumber NegInfinity b = NegInfinity"
| "addNumber a NegInfinity = NegInfinity"

fun timesThousand :: "js_number \<Rightarrow> js_number" where
  "timesThousand (Num r) = Num (r * 1000)"
| "timesThousand n = n"

fun numberOfOption :: "int option \<Rightarrow> js_number" where
  "numberOfOption (Some i) = Num (of_int i)"
| "numberOfOption None = NaN"

text \<open>For stating results: the date whose local time is midnight at the start of day \<open>d\<close>.\<close>

definition localMidnight :: "js_env \<Rightarrow> int \<Rightarrow> js_date" where
  "localMidnight env d = DateAt (d * msPerDay - localTZA env)"

section \<open>Calendar-date coercion (parseDate)\<close>

text \<open>
  \<^verbatim>\<open>new Date(year, monthIndex, day)\<close> on numbers: any argument that is not finite gives an
  invalid date, finite ones are truncated.
\<close>

fun newDateParts :: "js_env \<Rightarrow> js_number \<Rightarrow> js_number \<Rightarrow> js_number \<Rightarrow> js_date" where
  "newDateParts env (Num y) (Num m) (Num d) = newDateYMD env (truncateNum y) (truncateNum m) (truncateNum d)"
| "newDateParts env y m d = InvalidDate"

text \<open>\<^verbatim>\<open>text.split('/')\<close>.\<close>

fun splitOn :: "char \<Rightarrow> string \<Rightarrow> string list" where
  "splitOn sep [] = [[]]"
| "splitOn sep (c # cs) =
     (if c = sep then [] # splitOn sep cs
      else (case splitOn sep cs of [] \<Rightarrow> [[c]] | p # ps \<Rightarrow> (c # p) # ps))"

text \<open>The test \<^verbatim>\<open>/^\d{1,2}\/\d{1,2}\/\d{4}$/\<close>.\<close>

definition isMonthDayYear :: "string \<Rightarrow> bool" where
  "isMonthDayYear s =
     (case splitOn CHR ''/'' s of
        [m, d, y] \<Rightarrow>
          (length m = 1 \<or> length m = 2) \<and> (length d = 1 \<or> length d = 2) \<and> length y = 4
          \<and> list_all isDigit m \<and> list_all isDigit d \<and> list_all isDigit y
      | _ \<Rightarrow> False)"

text \<open>
  \<^verbatim>\<open>const [month, day, year] = text.split('/').map(Number); return new Date(year, month - 1, day)\<close>
\<close>

definition monthDayYearDate :: "js_env \<Rightarrow> string \<Rightarrow> js_date" where
  "monthDayYearDate env s =
     (case map stringToNumber (splitOn CHR ''/'' s) of
        month # day # year # rest \<Rightarrow> newDateParts env year (addNumber month (Num (- 1))) day
      | _ \<Rightarrow> InvalidDate)"

text \<open>
  The serial-date branch: \<^verbatim>\<open>excelEpoch = new Date(1899, 11, 30)\<close>, a copy of it, and
  \<^verbatim>\<open>setDate(excelEpoch.getDate() + dateInput)\<close> on the copy.
\<close>

definition excelEpoch :: "js_env \<Rightarrow> js_date" where
  "excelEpoch env = newDateYMD env 1899 11 30"

definition excelSerialDate :: "js_env \<Rightarrow> js_number \<Rightarrow> js_date" where
  "excelSerialDate env dateInput =
     setDate env (excelEpoch env)
       (addNumber (numberOfOption (getDate env (excelEpoch env))) dateInput)"

text \<open>
  parseDate of fixedFileParser.server.ts, the module the routes import. The result is
  \<open>JNull\<close> or a \<open>JDate\<close>; no path of the function throws.
\<close>

fun parseDate :: "js_env \<Rightarrow> js_value \<Rightarrow> js_value" where
  "parseDate env JNull = JNull"
| "parseDate env JUndefined = JNull"
| "parseDate env (JDate d) = (if d \<noteq> InvalidDate then JDate d else JNull)"
| "parseDate env (JNum n) =
     (if numLess n 1000 then JNull
      else if numGreater n 1000 \<and> numLess n 100000 then JDate (excelSerialDate env n)
      else if numLess n 10000000000 then JDate (newDateNumber (timesThousand n))
      else JDate (newDateNumber n))"
| "parseDate env (JStr s) =
     (let trimmedInput = trim s in
      if trimmedInput = [] then JNull
      else if isMonthDayYear trimmedInput then JDate (monthDayYearDate env trimmedInput)
      else (let parsedDate = dateFromText env trimmedInput in
            if parsedDate \<noteq> InvalidDate then JDate parsedDate else JNull))"
| "parseDate env (JBool b) = JNull"
| "parseDate env (JObj kvs) = JNull"

text \<open>
  The older copy of parseDate that root.tsx carries: no guard for numbers below 1000, no
  trimming, and a \<^verbatim>\<open>Date\<close> argument is not passed through.
\<close>

fun parseDate_root :: "js_env \<Rightarrow> js_value \<Rightarrow> js_value" where
  "parseDate_root env JNull = JNull"
| "parseDate_root env JUndefined = JNull"
| "parseDate_root env (JNum n) =
     (if numGreater n 1000 \<and> numLess n 100000 then JDate (excelSerialDate env n)
      else if numLess n 10000000000 then JDate (newDateNumber (timesThousand n))
      else JDate (newDateNumber n))"
| "parseDate_root env (JStr s) =
     (if isMonthDayYear s then JDate (monthDayYearDate env s)
      else (let date = dateFromText env s in
            if date \<noteq> InvalidDate then JDate date else JNull))"
| "parseDate_root env (JDate d) = JNull"
| "parseDate_root env (JBool b) = JNull"
| "parseDate_root env (JObj kvs) = JNull"

section \<open>Record builder (fixedFileParser.server.ts, cleanRow)\<close>

definition FIELD_MAPPING :: "(string \<times> string) list" where
  "FIELD_MAPPING =
     [(''practice_name'', ''practiceName''),
      (''charge'', ''charge''),
      (''cpt_code'', ''cptCode''),
      (''revenue_code'', ''revenueCode''),
      (''loc'', ''levelOfCare''),
      (''charge_amount'', ''chargeAmount''),
      (''payment'', ''payment''),
      (''allowed_amount'', ''allowedAmount''),
      (''primary_group'', ''primaryGroup''),
      (''claim_primary_member_id'', ''claimPrimaryID''),
      (''payer_name'', ''payerName''),
      (''payer_group'', ''payerGroup''),
      (''payment_total_paid'', ''paymentTotal''),
      (''payment_received'', ''paymentReceived''),
      (''payment_entered'', ''paymentEntered''),
      (''charge_from_date'', ''chargeFromDate''),
      (''charge_to_date'', ''chargeToDate''),
      (''primary_ins_zip'', ''primaryInsZip''),
      (''primary_ins_city'', ''primaryInsCity''),
      (''primary_ins_state'', ''primaryInsState''),
      (''primary_ins_addr_1'', ''primaryInsAddr1''),
      (''patient_zip'', ''patientZip''),
      (''patient_city'', ''patientCity''),
      (''patient_state'', ''patientState''),
      (''patient_address_1'', ''patientAddress1'')]"

text \<open>
  \<^verbatim>\<open>FIELD_MAPPING[normalizedHeader]\<close> reads a plain object, so besides the table's own
  keys the two all-lower-case names that every object inherits are found as well:
  \<^verbatim>\<open>constructor\<close> (a function) and \<^verbatim>\<open>__proto__\<close> (the prototype object). Both are
  truthy and belong to no field set, and the assignment \<^verbatim>\<open>cleanedRow[dbField] = value\<close> then
  goes to the property named by their text.
\<close>

definition lookupField :: "string \<Rightarrow> string option" where
  "lookupField normalizedHeader =
     (case map_of FIELD_MAPPING normalizedHeader of
        Some dbField \<Rightarrow> Some dbField
      | None \<Rightarrow>
          if normalizedHeader = ''constructor'' then Some ''function Object() { [native code] }''
          else if normalizedHeader = ''__proto__'' then Some ''[object Object]''
          else None)"

definition numericFields :: "string list" where
  "numericFields = [''chargeAmount'', ''payment'', ''allowedAmount'', ''paymentTotal'']"

definition dateFields :: "string list" where
  "dateFields = [''paymentReceived'', ''paymentEntered'', ''chargeFromDate'', ''chargeToDate'']"

definition stringFields :: "string list" where
  "stringFields =
     [''practiceName'', ''charge'', ''cptCode'', ''revenueCode'', ''levelOfCare'',
      ''primaryGroup'', ''claimPrimaryID'', ''payerName'', ''payerGroup'', ''primaryInsZip'',
      ''primaryInsCity'', ''primaryInsState'', ''primaryInsAddr1'', ''patientZip'',
      ''patientCity'', ''patientState'', ''patientAddress1'', ''payerClass'', ''employerName'',
      ''prefix'', ''groupPolicy'']"

text \<open>
  An object is the list of its own properties in creation order. Reading a property
  that is not there gives \<^verbatim>\<open>undefined\<close>; properties a row would inherit are not
  modelled. Assignment is \<open>AList.update\<close>.
\<close>

definition getProp :: "(string \<times> js_value) list \<Rightarrow> string \<Rightarrow> js_value" where
  "getProp obj k = (case map_of obj k of None \<Rightarrow> JUndefined | Some v \<Rightarrow> v)"

text \<open>\<^verbatim>\<open>text.replace(/[\$,]/g, '')\<close>.\<close>

definition stripCurrency :: "string \<Rightarrow> string" where
  "stripCurrency s = filter (\<lambda>c. c \<noteq> CHR ''$'' \<and> c \<noteq> CHR '','') s"

text \<open>The branch of a numeric field (currency-number).\<close>

definition coerceNumber :: "js_value \<Rightarrow> js_value" where
  "coerceNumber v =
     (let v1 = (case v of
                  JStr s \<Rightarrow> JNum (parseFloat (stripCurrency s))
                | JNull \<Rightarrow> JNull
                | JUndefined \<Rightarrow> JUndefined
                | _ \<Rightarrow> JNum (toNumber v))
      in if isNaN v1 then JNull else v1)"

text \<open>The branch of a string field.\<close>

definition coerceString :: "js_env \<Rightarrow> js_value \<Rightarrow> js_value" where
  "coerceString env v =
     (case v of
        JNum n \<Rightarrow> JStr (toString env v)
      | JNull \<Rightarrow> JNull
      | JUndefined \<Rightarrow> JUndefined
      | _ \<Rightarrow> JStr (toString env v))"

text \<open>The branch of a date field.\<close>

definition coerceDate :: "js_env \<Rightarrow> js_value \<Rightarrow> js_value" where
  "coerceDate env v = (let v1 = parseDate env v in if v1 = JUndefined then JNull else v1)"

definition coerceValue :: "js_env \<Rightarrow> string \<Rightarrow> js_value \<Rightarrow> js_value" where
  "coerceValue env dbField v =
     (if dbField \<in> set dateFields then coerceDate env v
      else if dbField \<in> set numericFields then coerceNumber v
      else if dbField \<in> set stringFields then coerceString env v
      else v)"

text \<open>One turn of the loop over the headers, and the loop.\<close>

definition cleanField ::
  "js_env \<Rightarrow> (string \<times> js_value) list \<Rightarrow> (string \<times> js_value) list \<Rightarrow> string
     \<Rightarrow> (string \<times> js_value) list" where
  "cleanField env row cleanedRow originalHeader =
     (case lookupField (normalizeFieldName originalHeader) of
        None \<Rightarrow> cleanedRow
      | Some dbField \<Rightarrow>
          AList.update dbField (coerceValue env dbField (getProp row originalHeader)) cleanedRow)"

definition cleanFields ::
  "js_env \<Rightarrow> (string \<times> js_value) list \<Rightarrow> string list \<Rightarrow> (string \<times> js_value) list" where
  "cleanFields env row headers = foldl (cleanField env row) [] headers"

text \<open>deriveLevelOfCare of root.tsx, which the parser module still relies on.\<close>

definition startsWith :: "string \<Rightarrow> string \<Rightarrow> bool" where
  "startsWith s p = (take (length p) s = p)"

definition deriveLevelOfCare :: "string \<Rightarrow> string" where
  "deriveLevelOfCare revenueCode =
     (if revenueCode = [] then ''UNKNOWN''
      else (let code = trim revenueCode in
            if startsWith code ''1'' then ''IOP''
            else if startsWith code ''2'' then ''PHP''
            else if startsWith code ''3'' then ''RES''
            else if startsWith code ''4'' then ''DETOX''
            else ''OTHER''))"

definition cleanRow ::
  "js_env \<Rightarrow> (string \<times> js_value) list \<Rightarrow> string list \<Rightarrow> (string \<times> js_value) list" where
  "cleanRow env row headers =
     (let cleanedRow = cleanFields env row headers in
      if \<not> truthy (getProp cleanedRow ''levelOfCare'') \<and> truthy (getProp cleanedRow ''revenueCode'')
      then AList.update ''levelOfCare''
             (JStr (deriveLevelOfCare (toString env (getProp cleanedRow ''revenueCode'')))) cleanedRow
      else if \<not> truthy (getProp cleanedRow ''levelOfCare'')
      then AList.update ''levelOfCare'' (JStr ''UNKNOWN'') cleanedRow
      else cleanedRow)"

text \<open>What a string field can hold after coercion: text, \<^verbatim>\<open>null\<close> or \<^verbatim>\<open>undefined\<close>.\<close>

definition textOrNullish :: "js_value \<Rightarrow> bool" where
  "textOrNullish v = (case v of JUndefined \<Rightarrow> True | JNull \<Rightarrow> True | JStr s \<Rightarrow> True | _ \<Rightarrow> False)"

text \<open>
  An environment for evaluating examples: the zone is UTC; the three text functions
  are not reached by any example below.
\<close>

definition exampleEnv :: js_env where
  "exampleEnv =
     \<lparr> numberText = (\<lambda>r. ''''), dateText = (\<lambda>t. ''''), dateFromText = (\<lambda>s. InvalidDate),
       localTZA = 0 \<rparr>"

text \<open>
  The rule table of the derivation in the words of the specification: the level of care
  for a first character, \<open>None\<close> standing for "no character".
\<close>

definition levelOfCareRule :: "char option \<Rightarrow> string" where
  "levelOfCareRule c =
     (if c = Some CHR ''1'' then ''IOP''
      else if c = Some CHR ''2'' then ''PHP''
      else if c = Some CHR ''3'' then ''RES''
      else if c = Some CHR ''4'' then ''DETOX''
      else ''OTHER'')"

definition firstChar :: "string \<Rightarrow> char option" where
  "firstChar s = (case s of [] \<Rightarrow> None | c # cs \<Rightarrow> Some c)"

section \<open>Batch persister (fixedFileParser.server.ts, saveDataToDatabase)\<close>

text \<open>
  The record store is outside the repository. It is a parameter: a state of any type
  and the two calls the persister makes, each returning the error it rejects with, if
  any, and the state it leaves behind. Nothing is assumed about when a call fails.
\<close>

type_synonym js_object = "(string \<times> js_value) list"

type_synonym db_error = string

record 's claim_store =
  createMany :: "'s \<Rightarrow> js_object list \<Rightarrow> db_error option \<times> 's"
  createOne :: "'s \<Rightarrow> js_object \<Rightarrow> db_error option \<times> 's"

text \<open>The console output of the persister, one constructor per call site (times left out).\<close>

datatype save_log =
    SaveStarting nat
  | SaveNoData
  | SavingBatch nat nat nat
  | BatchError nat db_error
  | AttemptingIndividually
  | IndividualFailure db_error
  | ProblematicRecord js_object
  | SaveComplete nat nat

record 's save_state =
  savedCount :: nat
  saveLog :: "save_log list"
  store :: 's

text \<open>
  The copy made of every record of a batch: a date field that is present and is not a
  \<^verbatim>\<open>Date\<close> becomes null.
\<close>

definition fixDateField :: "js_object \<Rightarrow> string \<Rightarrow> js_object" where
  "fixDateField processedRecord field =
     (if getProp processedRecord field \<noteq> JUndefined
      then AList.update field
             (case getProp processedRecord field of JDate d \<Rightarrow> JDate d | _ \<Rightarrow> JNull)
             processedRecord
      else processedRecord)"

definition processRecord :: "js_object \<Rightarrow> js_object" where
  "processRecord r = foldl fixDateField r dateFields"

text \<open>The inner loop of the fallback: one \<^verbatim>\<open>create\<close> per record, each in its own try.\<close>

fun saveIndividually :: "'s claim_store \<Rightarrow> js_object list \<Rightarrow> 's save_state \<Rightarrow> 's save_state" where
  "saveIndividually db [] st = st"
| "saveIndividually db (r # rs) st =
     (case createOne db (store st) r of
        (None, s') \<Rightarrow>
          saveIndividually db rs (st\<lparr>savedCount := savedCount st + 1, store := s'\<rparr>)
      | (Some recordError, s') \<Rightarrow>
          saveIndividually db rs
            (st\<lparr>saveLog := saveLog st @ [IndividualFailure recordError, ProblematicRecord r],
                store := s'\<rparr>))"

text \<open>
  One turn of the outer loop, for the batch that starts at index \<open>i\<close>:
  \<^verbatim>\<open>data.slice(i, i + 50)\<close>, the bulk insert, and the fallback when it rejects.
\<close>

definition saveBatch :: "'s claim_store \<Rightarrow> js_object list \<Rightarrow> nat \<Rightarrow> 's save_state \<Rightarrow> 's save_state" where
  "saveBatch db data i st =
     (let batchNumber = i div 50 + 1;
          totalBatches = (length data + 49) div 50;
          batch = take 50 (drop i data);
          st1 = st\<lparr>saveLog := saveLog st @ [SavingBatch batchNumber totalBatches (length batch)]\<rparr>;
          processedBatch = map processRecord batch
      in case createMany db (store st1) processedBatch of
           (None, s') \<Rightarrow> st1\<lparr>savedCount := savedCount st1 + length batch, store := s'\<rparr>
         | (Some e, s') \<Rightarrow>
             saveIndividually db processedBatch
               (st1\<lparr>saveLog := saveLog st1 @ [BatchError batchNumber e, AttemptingIndividually],
                    store := s'\<rparr>))"

function saveLoop :: "'s claim_store \<Rightarrow> js_object list \<Rightarrow> nat \<Rightarrow> 's save_state \<Rightarrow> 's save_state" where
  "saveLoop db data i st =
     (if i < length data then saveLoop db data (i + 50) (saveBatch db data i st) else st)"
  by pat_completeness auto
termination
  by (relation "measure (\<lambda>(db, data, i, st). length data - i)") auto

declare saveLoop.simps [simp del]

definition saveDataToDatabase :: "'s claim_store \<Rightarrow> 's \<Rightarrow> js_object list \<Rightarrow> 's save_state" where
  "saveDataToDatabase db s0 data =
     (let st0 = \<lparr>savedCount = 0, saveLog = [SaveStarting (length data)], store = s0\<rparr> in
      if length data = 0 then st0\<lparr>saveLog := saveLog st0 @ [SaveNoData]\<rparr>
      else (let st = saveLoop db data 0 st0 in
            st\<lparr>saveLog := saveLog st @ [SaveComplete (savedCount st) (length data)]\<rparr>))"

text \<open>
  For stating the partition: the number of batches, the batch with a given number
  (counted from 0), and the records the log reports as failed.
\<close>

definition batchCount :: "'a list \<Rightarrow> nat" where
  "batchCount data = (length data + 49) div 50"

definition batchAt :: "'a list \<Rightarrow> nat \<Rightarrow> 'a list" where
  "batchAt data k = take 50 (drop (50 * k) data)"

fun problematicRecords :: "save_log list \<Rightarrow> js_object list" where
  "problematicRecords [] = []"
| "problematicRecords (ProblematicRecord r # es) = r # problematicRecords es"
| "problematicRecords (e # es) = problematicRecords es"

section \<open>Aggregation engine (root.tsx, calculateMetrics)\<close>

text \<open>
  The three calls the engine makes are parameters as well. Counting and fetching do
  not change the record store, so they are functions of the query alone; the summary
  store has a state of any type. \<open>upsertMetrics\<close> takes the state, the unique key
  (\<^verbatim>\<open>where\<close>), the \<^verbatim>\<open>update\<close> values and the \<^verbatim>\<open>create\<close> values.

  The fourth parameter is the runtime's: \<^verbatim>\<open>Math.min(...validAmounts)\<close> and
  \<^verbatim>\<open>Math.max(...validAmounts)\<close> pass every amount as an argument of one call, and a
  call with more arguments than the engine accepts throws a RangeError.
  \<open>argumentLimit\<close> is the largest number of arguments it accepts.
\<close>

record 's metrics_db =
  countRecords :: "js_object \<Rightarrow> db_error + nat"
  findAllowedAmounts :: "js_object \<Rightarrow> db_error + rat option list"
  upsertMetrics :: "'s \<Rightarrow> js_object \<Rightarrow> js_object \<Rightarrow> js_object \<Rightarrow> db_error option \<times> 's"
  argumentLimit :: nat

definition rangeError :: db_error where
  "rangeError = ''RangeError: Maximum call stack size exceeded''"

datatype metrics_log =
    CalculatingMetrics js_object
  | CountError string db_error
  | SaveMetricsError string db_error
  | CalculateError string db_error

text \<open>
  An object literal that ends in \<^verbatim>\<open>...filters\<close>: the properties of \<open>filters\<close> are
  assigned in their order, a key that is already there keeps its place and takes the
  new value.
\<close>

definition spread :: "js_object \<Rightarrow> js_object \<Rightarrow> js_object" where
  "spread obj src = foldl (\<lambda>acc kv. AList.update (fst kv) (snd kv) acc) obj src"

definition levelsOfCare :: "string list" where
  "levelsOfCare = [''DETOX'', ''RES'', ''PHP'', ''IOP'', ''OTHER'']"

definition numberValue :: "rat \<Rightarrow> js_value" where
  "numberValue r = JNum (Num r)"

text \<open>The summary pushed when the count is zero and in the outer catch.\<close>

definition zeroSummary :: "string \<Rightarrow> nat \<Rightarrow> js_object \<Rightarrow> js_object" where
  "zeroSummary levelOfCare recordCount filters =
     spread
       [(''levelOfCare'', JStr levelOfCare),
        (''recordCount'', numberValue (of_nat recordCount)),
        (''averageAllowedAmount'', numberValue 0),
        (''minAllowedAmount'', numberValue 0),
        (''maxAllowedAmount'', numberValue 0),
        (''medianAllowedAmount'', numberValue 0),
        (''modeAllowedAmount'', numberValue 0)]
       filters"

definition computedSummary :: "string \<Rightarrow> nat \<Rightarrow> rat list \<Rightarrow> js_object \<Rightarrow> js_object" where
  "computedSummary levelOfCare cnt validAmounts filters =
     spread
       [(''levelOfCare'', JStr levelOfCare),
        (''recordCount'', numberValue (of_nat cnt)),
        (''averageAllowedAmount'', numberValue (average validAmounts)),
        (''minAllowedAmount'', numberValue (minAmount validAmounts)),
        (''maxAllowedAmount'', numberValue (maxAmount validAmounts)),
        (''medianAllowedAmount'', numberValue (median validAmounts)),
        (''modeAllowedAmount'', numberValue (mode validAmounts))]
       filters"

text \<open>\<^verbatim>\<open>a || b\<close>.\<close>

definition orElse :: "js_value \<Rightarrow> js_value \<Rightarrow> js_value" where
  "orElse a b = (if truthy a then a else b)"

text \<open>The unique key handed to the upsert.\<close>

definition metricsKey :: "string \<Rightarrow> js_object \<Rightarrow> js_object" where
  "metricsKey levelOfCare filters =
     [(''levelOfCare'', JStr levelOfCare),
      (''stateTreatedAt'', orElse (getProp filters ''stateTreatedAt'') (JStr '''')),
      (''payerName'', orElse (getProp filters ''payerName'') (JStr '''')),
      (''payerClass'', orElse (getProp filters ''payerClass'') (JStr '''')),
      (''serviceYear'', orElse (getProp filters ''serviceYear'') (numberValue 0)),
      (''paymentReceivedYear'', orElse (getProp filters ''paymentReceivedYear'') (numberValue 0))]"

text \<open>\<^verbatim>\<open>.map(item => item.allowedAmount).filter(amount => amount !== null && amount !== undefined)\<close>\<close>

definition validAmountsOf :: "rat option list \<Rightarrow> rat list" where
  "validAmountsOf allowedAmounts = List.map_filter (\<lambda>a. a) allowedAmounts"

record 's metrics_state =
  results :: "js_object list"
  metricsLog :: "metrics_log list"
  summaries :: 's

text \<open>
  One turn of the loop over the levels of care; \<open>cnt\<close> is the variable \<^verbatim>\<open>count\<close>.
  Inside the outer \<^verbatim>\<open>try\<close> two things can throw before the summary is pushed:
  the fetch, when the store rejects it, and the spread of the amounts into the
  arguments of \<^verbatim>\<open>Math.min\<close>, when there are more amounts than arguments allowed.
  Both end in the outer \<^verbatim>\<open>catch\<close>, which pushes the summary with the count obtained
  and the statistics 0; nothing is upserted then. The upsert has a \<^verbatim>\<open>try\<close> of
  its own.
\<close>

definition levelOfCareMetrics ::
  "'s metrics_db \<Rightarrow> js_object \<Rightarrow> 's metrics_state \<Rightarrow> string \<Rightarrow> 's metrics_state" where
  "levelOfCareMetrics db filters st levelOfCare =
     (let whereClause = spread [(''levelOfCare'', JStr levelOfCare)] filters;
          (cnt, st1) =
            (case countRecords db whereClause of
               Inr n \<Rightarrow> (n, st)
             | Inl e \<Rightarrow> (0, st\<lparr>metricsLog := metricsLog st @ [CountError levelOfCare e]\<rparr>))
      in if cnt = 0
         then st1\<lparr>results := results st1 @ [zeroSummary levelOfCare 0 filters]\<rparr>
         else
           (case findAllowedAmounts db whereClause of
              Inr allowedAmounts \<Rightarrow>
                (let validAmounts = validAmountsOf allowedAmounts in
                 if argumentLimit db < length validAmounts
                 then st1\<lparr>results := results st1 @ [zeroSummary levelOfCare cnt filters],
                          metricsLog := metricsLog st1 @ [CalculateError levelOfCare rangeError]\<rparr>
                 else
                   (let metrics = computedSummary levelOfCare cnt validAmounts filters;
                        st2 = st1\<lparr>results := results st1 @ [metrics]\<rparr>
                    in case upsertMetrics db (summaries st2) (metricsKey levelOfCare filters) metrics metrics of
                         (None, s') \<Rightarrow> st2\<lparr>summaries := s'\<rparr>
                       | (Some e, s') \<Rightarrow>
                           st2\<lparr>metricsLog := metricsLog st2 @ [SaveMetricsError levelOfCare e],
                               summaries := s'\<rparr>))
            | Inl e \<Rightarrow>
                st1\<lparr>results := results st1 @ [zeroSummary levelOfCare cnt filters],
                    metricsLog := metricsLog st1 @ [CalculateError levelOfCare e]\<rparr>))"

definition calculateMetrics :: "'s metrics_db \<Rightarrow> 's \<Rightarrow> js_object \<Rightarrow> 's metrics_state" where
  "calculateMetrics db s0 filters =
     foldl (levelOfCareMetrics db filters)
       \<lparr>results = [], metricsLog = [CalculatingMetrics filters], summaries = s0\<rparr>
       levelsOfCare"

text \<open>
  For stating the result: the keys of a summary, "all five statistics are the number
  0", and the summary of one level of care as a function of the store's answers for
  that level alone.
\<close>

definition summaryKeys :: "string list" where
  "summaryKeys =
     [''levelOfCare'', ''recordCount'', ''averageAllowedAmount'', ''minAllowedAmount'',
      ''maxAllowedAmount'', ''medianAllowedAmount'', ''modeAllowedAmount'']"

definition zeroStatistics :: "js_object \<Rightarrow> bool" where
  "zeroStatistics s =
     (getProp s ''averageAllowedAmount'' = JNum (Num 0)
      \<and> getProp s ''minAllowedAmount'' = JNum (Num 0)
      \<and> getProp s ''maxAllowedAmount'' = JNum (Num 0)
      \<and> getProp s ''medianAllowedAmount'' = JNum (Num 0)
      \<and> getProp s ''modeAllowedAmount'' = JNum (Num 0))"

definition bucketSummary :: "'s metrics_db \<Rightarrow> js_object \<Rightarrow> string \<Rightarrow> js_object" where
  "bucketSummary db filters levelOfCare =
     (let whereClause = spread [(''levelOfCare'', JStr levelOfCare)] filters in
      case countRecords db whereClause of
        Inl e \<Rightarrow> zeroSummary levelOfCare 0 filters
      | Inr n \<Rightarrow>
          if n = 0 then zeroSummary levelOfCare 0 filters
          else (case findAllowedAmounts db whereClause of
                  Inl e \<Rightarrow> zeroSummary levelOfCare n filters
                | Inr allowedAmounts \<Rightarrow>
                    if argumentLimit db < length (validAmountsOf allowedAmounts)
                    then zeroSummary levelOfCare n filters
                    else computedSummary levelOfCare n (validAmountsOf allowedAmounts) filters))"

text \<open>
  A store for evaluating examples: its state is the list of the records it holds; it
  rejects a record whose levelOfCare is null, and a bulk insert that contains one.
\<close>

definition rejected :: "js_object \<Rightarrow> bool" where
  "rejected r = (getProp r ''levelOfCare'' = JNull)"

definition exampleStore :: "js_object list claim_store" where
  "exampleStore =
     \<lparr> createMany = (\<lambda>s rs. if list_ex rejected rs then (Some ''batch rejected'', s) else (None, s @ rs)),
       createOne = (\<lambda>s r. if rejected r then (Some ''record rejected'', s) else (None, s @ [r])) \<rparr>"

definition goodRecord :: js_object where
  "goodRecord = [(''levelOfCare'', JStr ''IOP'')]"

definition badRecord :: js_object where
  "badRecord = [(''levelOfCare'', JNull)]"

definition exampleData :: "js_object list" where
  "exampleData = replicate 50 goodRecord @ [badRecord, goodRecord]"

text \<open>
  Modelled from the spec: the summary store, which is not in the repository. Section 6
  gives it one operation, \<^verbatim>\<open>upsert(uniqueKey, updateValues, createValues)\<close>; the model
  takes the columns and the unique key of CalculatedMetrics from
  src/prisma/schema.prisma. The state is the list of the rows; a row holds the columns
  that were written, any other column of the row is null. The upsert rejects values for
  a column the table does not have; otherwise it updates the rows whose key columns
  equal the unique key and, when there is none, adds a row made of the create values.
  A key column that is null equals no key value, and rows that are null in a key column
  do not conflict with one another.
\<close>

definition metricsColumns :: "string list" where
  "metricsColumns =
     [''levelOfCare'', ''recordCount'', ''averageAllowedAmount'', ''minAllowedAmount'',
      ''maxAllowedAmount'', ''medianAllowedAmount'', ''modeAllowedAmount'', ''stateTreatedAt'',
      ''payerName'', ''payerClass'', ''employerName'', ''prefix'', ''groupPolicy'',
      ''policyHolderState'', ''serviceYear'', ''paymentReceivedYear'']"

definition matchesKey :: "js_object \<Rightarrow> js_object \<Rightarrow> bool" where
  "matchesKey uniqueKey row = list_all (\<lambda>kv. getProp row (fst kv) = snd kv) uniqueKey"

definition summaryUpsert ::
  "js_object list \<Rightarrow> js_object \<Rightarrow> js_object \<Rightarrow> js_object \<Rightarrow> db_error option \<times> js_object list" where
  "summaryUpsert rows uniqueKey updateValues createValues =
     (if list_ex (\<lambda>k. k \<notin> set metricsColumns) (map fst updateValues @ map fst createValues)
      then (Some ''unknown argument'', rows)
      else if list_ex (matchesKey uniqueKey) rows
      then (None, map (\<lambda>row. if matchesKey uniqueKey row then spread row updateValues else row) rows)
      else (None, rows @ [createValues]))"

text \<open>
  A record store for evaluating examples: counting fails for DETOX, RES has no record,
  PHP has two records but fetching them fails, IOP has five records (one without an
  allowed amount), OTHER has none. The filters are ignored, except that the level of
  care is read from the query. A call accepts 100 arguments.
\<close>

definition exampleMetricsDb :: "js_object list metrics_db" where
  "exampleMetricsDb =
     \<lparr> countRecords = (\<lambda>w.
         if getProp w ''levelOfCare'' = JStr ''DETOX'' then Inl ''count failed''
         else if getProp w ''levelOfCare'' = JStr ''PHP'' then Inr 2
         else if getProp w ''levelOfCare'' = JStr ''IOP'' then Inr 5
         else Inr 0),
       findAllowedAmounts = (\<lambda>w.
         if getProp w ''levelOfCare'' = JStr ''PHP'' then Inl ''query failed''
         else Inr [Some 10, None, Some 20, Some 20, Some 30]),
       upsertMetrics = summaryUpsert,
       argumentLimit = 100 \<rparr>"

text \<open>The same stores under a runtime whose calls accept three arguments.\<close>

definition smallCallDb :: "js_object list metrics_db" where
  "smallCallDb = exampleMetricsDb\<lparr>argumentLimit := 3\<rparr>"

section \<open>Normalization is idempotent\<close>

lemma isFieldChar_not_space: "isFieldChar c \<Longrightarrow> \<not> isWhiteSpace c"
  by (auto simp: isFieldChar_def isWhiteSpace_def Let_def)

lemma isFieldChar_lower: "isFieldChar c \<Longrightarrow> toLowerChar c = c"
  by (auto simp: isFieldChar_def toLowerChar_def Let_def)

lemma dropWhile_none: "\<forall>c \<in> set s. \<not> P c \<Longrightarrow> dropWhile P s = s"
  by (cases s) auto

lemma trim_no_space:
  assumes "\<forall>c \<in> set s. \<not> isWhiteSpace c"
  shows "trim s = s"
proof -
  have a: "dropWhile isWhiteSpace s = s"
    using assms by (rule dropWhile_none)
  have b: "dropWhile isWhiteSpace (rev s) = rev s"
    using assms by (intro dropWhile_none) simp
  show ?thesis by (simp add: trim_def a b)
qed

lemma replaceSpaceRuns_no_space:
  "\<forall>c \<in> set s. \<not> isWhiteSpace c \<Longrightarrow> replaceSpaceRuns s = s"
  by (induction s) auto

lemma normalizeFieldName_chars: "\<forall>c \<in> set (normalizeFieldName h). isFieldChar c"
  by (simp add: normalizeFieldName_def)

lemma normalizeFieldName_fixed:
  assumes "\<forall>c \<in> set s. isFieldChar c"
  shows "normalizeFieldName s = s"
proof -
  have ns: "\<forall>c \<in> set s. \<not> isWhiteSpace c"
    using assms isFieldChar_not_space by blast
  have low: "toLowerCase s = s"
    using assms by (simp add: toLowerCase_def isFieldChar_lower map_idI)
  have "filter isFieldChar s = s"
    using assms by simp
  then show ?thesis
    by (simp add: normalizeFieldName_def trim_no_space [OF ns] low
        replaceSpaceRuns_no_space [OF ns])
qed

text \<open>
  Claim C9. Normalizing a header twice gives what normalizing it once gives, for every
  header string; the normalizer is the composition trim, lowercase, white-space runs to
  one underscore, strip everything outside \<^verbatim>\<open>[a-z0-9_]\<close>, and it is a total
  function (no input makes it fail).
\<close>

theorem normalizeFieldName_idempotent:
  "normalizeFieldName (normalizeFieldName h) = normalizeFieldName h
   \<and> normalizeFieldName h = filter isFieldChar (replaceSpaceRuns (toLowerCase (trim h)))"
proof
  show "normalizeFieldName (normalizeFieldName h) = normalizeFieldName h"
    by (rule normalizeFieldName_fixed) (rule normalizeFieldName_chars)
  show "normalizeFieldName h = filter isFieldChar (replaceSpaceRuns (toLowerCase (trim h)))"
    by (simp add: normalizeFieldName_def)
qed

section \<open>Median and mode\<close>

lemma median_sorted:
  assumes "xs \<noteq> []" "sorted ys" "mset ys = mset xs"
  shows "median xs = (if odd (length xs) then ys ! (length xs div 2)
                      else (ys ! (length xs div 2 - 1) + ys ! (length xs div 2)) / 2)"
proof -
  have s: "sort xs = ys"
    using assms(2,3) by (metis properties_for_sort)
  have l: "length ys = length xs"
    using assms(3) by (rule mset_eq_length)
  have "ys \<noteq> []" using assms(1) l by auto
  then show ?thesis
    by (simp add: median_def Let_def s l odd_iff_mod_2_eq_one)
qed

lemma set_firstOccurrences [simp]: "set (firstOccurrences xs) = set xs"
  by (induction xs rule: firstOccurrences.induct) auto

lemma distinct_firstOccurrences [simp]: "distinct (firstOccurrences xs)"
  by (induction xs rule: firstOccurrences.induct) auto

lemma keys_tally:
  "map fst (tally acc x) = (if x \<in> set (map fst acc) then map fst acc else map fst acc @ [x])"
  by (simp add: tally_def update_keys)

lemma keys_foldl_tally:
  "map fst (foldl tally acc xs) =
     map fst acc @ firstOccurrences (filter (\<lambda>x. x \<notin> set (map fst acc)) xs)"
proof (induction xs arbitrary: acc)
  case Nil
  then show ?case by simp
next
  case (Cons x xs)
  show ?case
  proof (cases "x \<in> set (map fst acc)")
    case True
    then have "map fst (tally acc x) = map fst acc"
      by (simp only: keys_tally if_True)
    then show ?thesis using True Cons [of "tally acc x"] by simp
  next
    case False
    then have k: "map fst (tally acc x) = map fst acc @ [x]"
      by (simp only: keys_tally if_False)
    have "filter (\<lambda>y. y \<notin> set (map fst (tally acc x))) xs
            = removeAll x (filter (\<lambda>y. y \<notin> set (map fst acc)) xs)"
      unfolding k by (induction xs) auto
    then show ?thesis using False k Cons [of "tally acc x"] by simp
  qed
qed

lemma count_foldl_tally:
  "map_of (foldl tally acc xs) v =
     (if v \<in> set (map fst acc) \<union> set xs
      then Some ((case map_of acc v of None \<Rightarrow> 0 | Some n \<Rightarrow> n) + count_list xs v)
      else None)"
proof (induction xs arbitrary: acc)
  case Nil
  then show ?case
    by (auto simp: map_of_eq_None_iff split: option.splits)
next
  case (Cons x xs)
  have m: "map_of (tally acc x) = (map_of acc)(x \<mapsto> (case map_of acc x of None \<Rightarrow> 0 | Some n \<Rightarrow> n) + 1)"
    by (simp add: tally_def update_conv')
  show ?case
    using Cons [of "tally acc x"]
    by (auto simp: m keys_tally split: option.splits)
qed

lemma keys_frequencyOf: "map fst (frequencyOf xs) = firstOccurrences xs"
  using keys_foldl_tally [of "[]" xs] by (simp add: frequencyOf_def)

lemma count_frequencyOf:
  "map_of (frequencyOf xs) v = (if v \<in> set xs then Some (count_list xs v) else None)"
  using count_foldl_tally [of "[]" xs v] by (simp add: frequencyOf_def)

lemma alist_by_keys:
  "distinct (map fst al) \<Longrightarrow> \<forall>k \<in> set (map fst al). map_of al k = Some (c k)
     \<Longrightarrow> al = map (\<lambda>k. (k, c k)) (map fst al)"
proof (induction al)
  case Nil
  then show ?case by simp
next
  case (Cons e al)
  obtain a b where e: "e = (a, b)" by (cases e)
  have na: "a \<notin> set (map fst al)" and d: "distinct (map fst al)"
    using Cons.prems(1) e by auto
  have "a \<in> set (map fst (e # al))" using e by simp
  then have "map_of (e # al) a = Some (c a)"
    using Cons.prems(2) by blast
  then have b: "b = c a"
    using e by simp
  have "\<forall>k \<in> set (map fst al). map_of al k = Some (c k)"
  proof
    fix k assume k: "k \<in> set (map fst al)"
    then have "k \<noteq> a" using na by blast
    moreover have "k \<in> set (map fst (e # al))" using k by simp
    then have "map_of (e # al) k = Some (c k)"
      using Cons.prems(2) by blast
    ultimately show "map_of al k = Some (c k)" using e by simp
  qed
  then have "al = map (\<lambda>k. (k, c k)) (map fst al)"
    using Cons.IH d by blast
  then show ?case using e b by simp
qed

lemma frequencyOf_shape:
  "frequencyOf xs = map (\<lambda>v. (v, count_list xs v)) (firstOccurrences xs)"
proof -
  have d: "distinct (map fst (frequencyOf xs))"
    by (simp add: keys_frequencyOf)
  have "\<forall>k \<in> set (map fst (frequencyOf xs)). map_of (frequencyOf xs) k = Some (count_list xs k)"
    by (simp add: keys_frequencyOf count_frequencyOf)
  from alist_by_keys [OF d this] show ?thesis
    by (simp add: keys_frequencyOf)
qed

lemma insort_key_tagged:
  "insort_key fst (v, c v) (map (\<lambda>v. (v, c v)) ks) = map (\<lambda>v. (v, c v)) (insort v ks)"
  by (induction ks) auto

lemma sort_key_tagged:
  "sort_key fst (map (\<lambda>v. (v, c v)) ks) = map (\<lambda>v. (v, c v)) (sort ks)"
  by (induction ks) (auto simp: insort_key_tagged)

lemma entries_frequencyOf:
  "entries (frequencyOf xs) = map (\<lambda>v. (v, count_list xs v)) (iterationOrder xs)"
  by (simp add: entries_def frequencyOf_shape iterationOrder_def filter_map o_def sort_key_tagged)


lemma modeLoop_tagged:
  "modeLoop (map (\<lambda>v. (v, c v)) ks) (m, mf) =
     (if \<forall>v \<in> set ks. c v \<le> mf then (m, mf)
      else (hd (filter (\<lambda>v. \<forall>w \<in> set ks. c w \<le> c v) ks),
            c (hd (filter (\<lambda>v. \<forall>w \<in> set ks. c w \<le> c v) ks))))"
proof (induction ks arbitrary: m mf)
  case Nil
  then show ?case by simp
next
  case (Cons k ks)
  let ?best = "\<lambda>ls v. \<forall>w \<in> set ls. c w \<le> c v"
  have tail: "filter (?best (k # ks)) (k # ks) = filter (?best ks) ks"
    if big: "\<exists>w \<in> set ks. c k < c w"
  proof -
    have "\<not> ?best (k # ks) k" using big by (fastforce simp: not_le)
    moreover have "filter (?best (k # ks)) ks = filter (?best ks) ks"
    proof (rule filter_cong [OF refl])
      fix v assume "v \<in> set ks"
      show "?best (k # ks) v = ?best ks v"
      proof
        assume "?best ks v"
        moreover from big obtain w where "w \<in> set ks" "c k < c w" by blast
        ultimately have "c k \<le> c v" by fastforce
        with \<open>?best ks v\<close> show "?best (k # ks) v" by simp
      qed simp
    qed
    ultimately show ?thesis by simp
  qed
  show ?case
  proof (cases "mf < c k")
    case True
    show ?thesis
    proof (cases "\<forall>v \<in> set ks. c v \<le> c k")
      case all: True
      then have "?best (k # ks) k" by simp
      then show ?thesis using True all Cons [of k "c k"] by auto
    next
      case False
      then have big: "\<exists>w \<in> set ks. c k < c w" by (auto simp: not_le)
      show ?thesis using True False Cons [of k "c k"] tail [OF big] by auto
    qed
  next
    case low: False
    show ?thesis
    proof (cases "\<forall>v \<in> set ks. c v \<le> mf")
      case True
      then show ?thesis using low Cons [of m mf] by auto
    next
      case False
      then obtain w where "w \<in> set ks" "mf < c w" by (auto simp: not_le)
      then have big: "\<exists>w \<in> set ks. c k < c w" using low by (intro bexI [of _ w]) auto
      show ?thesis using low False Cons [of m mf] tail [OF big] by auto
    qed
  qed
qed

lemma set_iterationOrder [simp]: "set (iterationOrder xs) = set xs"
  by (auto simp: iterationOrder_def)

lemma mode_first_in_order:
  assumes "xs \<noteq> []"
  shows "mode xs = hd (filter (isMostFrequent xs) (iterationOrder xs))"
proof -
  obtain x where x: "x \<in> set xs" using assms by (cases xs) auto
  then have "0 < count_list xs x" by (metis count_list_0_iff gr0I)
  then have ne: "\<not> (\<forall>v \<in> set (iterationOrder xs). count_list xs v \<le> 0)"
    using x by auto
  have "fst (modeLoop (map (\<lambda>v. (v, count_list xs v)) (iterationOrder xs)) (0, 0))
          = hd (filter (\<lambda>v. \<forall>w \<in> set (iterationOrder xs). count_list xs w \<le> count_list xs v)
                  (iterationOrder xs))"
    unfolding modeLoop_tagged [of "count_list xs" "iterationOrder xs" 0 0] if_not_P [OF ne]
    by (rule fst_conv)
  also have "\<dots> = hd (filter (isMostFrequent xs) (iterationOrder xs))"
    by (simp add: isMostFrequent_def [abs_def])
  finally show ?thesis
    by (simp only: mode_def entries_frequencyOf)
qed

lemma filter_mostFrequent_nonempty:
  assumes "xs \<noteq> []" and that: "set ys = set xs"
  shows "filter (isMostFrequent xs) ys \<noteq> []"
proof -
  have "finite (count_list xs ` set xs)" "count_list xs ` set xs \<noteq> {}"
    using assms by auto
  then have "Max (count_list xs ` set xs) \<in> count_list xs ` set xs"
    by (rule Max_in)
  then obtain v where v: "v \<in> set xs" "count_list xs v = Max (count_list xs ` set xs)"
    by auto
  then have "isMostFrequent xs v"
    by (auto simp: isMostFrequent_def)
  then show ?thesis using v(1) that by (auto simp: filter_empty_conv)
qed

lemma mode_mostFrequent:
  assumes "xs \<noteq> []"
  shows "mode xs \<in> set xs \<and> isMostFrequent xs (mode xs)"
proof -
  let ?f = "filter (isMostFrequent xs) (iterationOrder xs)"
  have "?f \<noteq> []"
    by (rule filter_mostFrequent_nonempty [OF assms]) simp
  then have "hd ?f \<in> set ?f" by (rule hd_in_set)
  then show ?thesis
    by (simp add: mode_first_in_order [OF assms])
qed

lemma hd_filter_firstOccurrences:
  "hd (filter P (firstOccurrences xs)) = hd (filter P xs)"
proof (induction xs rule: firstOccurrences.induct)
  case 1
  then show ?case by simp
next
  case (2 x xs)
  show ?case
  proof (cases "P x")
    case True
    then show ?thesis by simp
  next
    case False
    then have "filter P (removeAll x xs) = filter P xs"
      by (induction xs) auto
    then show ?thesis using False 2 by simp
  qed
qed

lemma mode_first_in_input:
  assumes "xs \<noteq> []" "\<forall>v \<in> set xs. \<not> isArrayIndex v"
  shows "mode xs = hd (filter (isMostFrequent xs) xs)"
proof -
  have "filter isArrayIndex (firstOccurrences xs) = []"
    using assms(2) by (simp add: filter_empty_conv)
  moreover have "filter (\<lambda>v. \<not> isArrayIndex v) (firstOccurrences xs) = firstOccurrences xs"
    using assms(2) by simp
  ultimately have "iterationOrder xs = firstOccurrences xs"
    by (simp add: iterationOrder_def)
  then show ?thesis
    by (simp add: mode_first_in_order [OF assms(1)] hd_filter_firstOccurrences)
qed


text \<open>
  Claim C7. For a non-empty list of valid allowed amounts the median is the midpoint of
  the sorted sequence: with \<open>ys\<close> the amounts in ascending order, the middle element
  when the count is odd and the average of the two middle elements when it is even. For
  the amounts 10, 20, 20, 30 the median is 20 and for 5, 15 it is 10.
\<close>

theorem median_midpoint:
  assumes "xs \<noteq> []" and "sorted ys" and "mset ys = mset xs"
  shows "median xs = (if odd (length xs) then ys ! (length xs div 2)
                      else (ys ! (length xs div 2 - 1) + ys ! (length xs div 2)) / 2)
         \<and> median [10, 20, 20, 30] = 20 \<and> median [5, 15] = 10"
proof -
  have "median [10, 20, 20, 30] = 20" by (simp add: median_def)
  moreover have "median [5, 15] = 10" by (simp add: median_def)
  ultimately show ?thesis using median_sorted [OF assms] by simp
qed

theorem median_midpoint_witness:
  "[30, 10, 20, 20, 7] \<noteq> ([] :: rat list) \<and> sorted [7, 10, 20, 20, 30 :: rat]
   \<and> mset [7, 10, 20, 20, 30] = mset [30, 10, 20, 20, 7 :: rat]
   \<and> median [30, 10, 20, 20, 7] = 20"
  using median_midpoint [of "[30, 10, 20, 20, 7]" "[7, 10, 20, 20, 30]"] by simp

text \<open>
  Claim C1, as amended. For a non-empty list of valid allowed amounts the mode is a most
  frequent value, and among the most frequent values it is the first in the order in
  which the frequency tally is enumerated: the amounts that are integers from 0 to
  2^32 - 2 come first, in ascending numeric order, and the other amounts follow in order
  of first occurrence. When no amount is such an integer the mode is the first value of
  the input sequence that has the maximum frequency.
\<close>

theorem mode_tally_order:
  assumes "xs \<noteq> []"
  shows "mode xs \<in> set xs \<and> isMostFrequent xs (mode xs)
         \<and> mode xs = hd (filter (isMostFrequent xs) (iterationOrder xs))
         \<and> ((\<forall>v \<in> set xs. \<not> isArrayIndex v)
              \<longrightarrow> mode xs = hd (filter (isMostFrequent xs) xs))"
  using mode_mostFrequent [OF assms] mode_first_in_order [OF assms]
    mode_first_in_input [OF assms] by blast

theorem mode_tally_order_witness:
  "[20, 10, 20, 10] \<noteq> ([] :: rat list)
   \<and> mode [20, 10, 20, 10] = hd (filter (isMostFrequent [20, 10, 20, 10]) (iterationOrder [20, 10, 20, 10]))
   \<and> iterationOrder [20, 10, 20, 10] = [10, 20]
   \<and> mode [20, 10, 20, 10] = 10
   \<and> list_all (\<lambda>v. \<not> isArrayIndex v) [41 / 2, 21 / 2, 41 / 2, 21 / 2]
   \<and> mode [41 / 2, 21 / 2, 41 / 2, 21 / 2] = hd (filter (isMostFrequent [41 / 2, 21 / 2, 41 / 2, 21 / 2]) [41 / 2, 21 / 2, 41 / 2, 21 / 2])
   \<and> mode [41 / 2, 21 / 2, 41 / 2, 21 / 2] = 41 / 2"
proof -
  have a: "iterationOrder [20, 10, 20, 10] = [10, 20]" by code_simp
  have b: "mode [20, 10, 20, 10] = 10" by code_simp
  have c: "list_all (\<lambda>v. \<not> isArrayIndex v) [41 / 2, 21 / 2, 41 / 2, 21 / 2]" by code_simp
  have d: "mode [41 / 2, 21 / 2, 41 / 2, 21 / 2] = 41 / 2" by code_simp
  show ?thesis
    using mode_tally_order [of "[20, 10, 20, 10]"]
      mode_tally_order [of "[41 / 2, 21 / 2, 41 / 2, 21 / 2]"] a b c d
    by (simp add: list_all_iff)
qed

theorem mode_first_encountered_counterexample:
  "mode [20, 10] = 10 \<and> hd (filter (isMostFrequent [20, 10]) [20, 10]) = 20
   \<and> mode [20, 10] \<noteq> hd (filter (isMostFrequent [20, 10]) [20, 10])"
proof -
  have a: "mode [20, 10] = 10" by code_simp
  have b: "hd (filter (isMostFrequent [20, 10]) [20, 10]) = 20" by code_simp
  show ?thesis unfolding a b by simp
qed
section \<open>Currency-number coercion\<close>


lemma unsignedDecimalPrefix_not_NaN: "unsignedDecimalPrefix s = Some (n, r) \<Longrightarrow> n \<noteq> NaN"
  by (auto simp: unsignedDecimalPrefix_def Let_def split: if_splits prod.splits)

lemma decimalPrefix_not_NaN: "decimalPrefix s = Some (n, r) \<Longrightarrow> n \<noteq> NaN"
  by (cases s)
     (auto simp: decimalPrefix_def split: if_splits option.splits
           dest!: unsignedDecimalPrefix_not_NaN elim: negateNumber.elims)

lemma parseFloat_prefix:
  "parseFloat s = (case decimalPrefix (trimStart s) of None \<Rightarrow> NaN | Some (n, rest) \<Rightarrow> n)"
  by (simp add: parseFloat_def)

lemma coerceNumber_text:
  "coerceNumber (JStr s) =
     (case decimalPrefix (trimStart (stripCurrency s)) of
        None \<Rightarrow> JNull
      | Some (n, rest) \<Rightarrow> JNum n)"
  by (auto simp: coerceNumber_def parseFloat_def isNaN_def Let_def
           split: option.splits dest: decimalPrefix_not_NaN)

lemma coerceNumber_number: "coerceNumber (JNum n) = (if n = NaN then JNull else JNum n)"
  by (simp add: coerceNumber_def isNaN_def)

lemma coerceNumber_shape: "coerceNumber v = JNull \<or> (\<exists>n. n \<noteq> NaN \<and> coerceNumber v = JNum n)"
  by (cases v) (auto simp: coerceNumber_def isNaN_def Let_def)

lemma digit_not_space: "isDigit c \<Longrightarrow> \<not> isWhiteSpace c"
  by (auto simp: isDigit_def isWhiteSpace_def)

lemma plain_decimal:
  assumes "ip \<noteq> []" "list_all isDigit ip" "list_all isDigit fp"
  shows "parseFloat (ip @ ''.'' @ fp) = Num (of_nat (digitsValue ip) + of_nat (digitsValue fp) / 10 ^ length fp)"
proof -
  obtain c cs where ip: "ip = c # cs" using assms(1) by (cases ip) auto
  have dc: "isDigit c" using assms(2) ip by simp
  have ts: "trimStart (ip @ ''.'' @ fp) = ip @ ''.'' @ fp"
    using dc ip by (simp add: trimStart_def digit_not_space)
  have nd: "\<not> isDigit CHR ''.''" by (simp add: isDigit_def)
  have tw: "takeWhile isDigit (ip @ ''.'' @ fp) = ip"
    using assms(2) nd by (simp add: list_all_iff takeWhile_append2 del: append.simps)
  have dw: "dropWhile isDigit (ip @ ''.'' @ fp) = ''.'' @ fp"
    using assms(2) nd by (simp add: list_all_iff dropWhile_append2 del: append.simps)
  have tf: "takeWhile isDigit fp = fp" "dropWhile isDigit fp = []"
    using assms(3) by (simp_all add: list_all_iff)
  have ninf: "take 8 (ip @ ''.'' @ fp) \<noteq> ''Infinity''"
    using dc ip by (auto simp: isDigit_def)
  have sgn: "c \<noteq> CHR ''-''" "c \<noteq> CHR ''+''"
    using dc by (auto simp: isDigit_def)
  have u: "unsignedDecimalPrefix (ip @ ''.'' @ fp)
             = Some (Num (of_nat (digitsValue ip) + of_nat (digitsValue fp) / 10 ^ length fp), [])"
    using ninf assms(1)
    by (simp add: unsignedDecimalPrefix_def tw dw tf exponentPart_def scale10_def Let_def del: append.simps)
       (simp add: tf exponentPart_def scale10_def)
  have "decimalPrefix (ip @ ''.'' @ fp) = unsignedDecimalPrefix (ip @ ''.'' @ fp)"
    using sgn ip by (simp add: decimalPrefix_def)
  then show ?thesis by (simp add: parseFloat_def ts u del: append.simps)
qed


text \<open>
  Claim C8, as amended. For a currency-number field a textual cell has every \<^verbatim>\<open>$\<close> and
  \<^verbatim>\<open>,\<close> removed and is then read by \<^verbatim>\<open>parseFloat\<close>: leading white space is skipped
  and the longest leading decimal literal is the value, whatever follows it being
  ignored; the result is null exactly when the remainder has no such prefix. A text that
  is digits, a point and digits after the stripping yields that decimal number, so
  \<^verbatim>\<open>$1,234.50\<close> yields 1234.50, and \<^verbatim>\<open>abc\<close> yields null. A numeric cell is used as it
  is, NaN becoming null. Every result is null or a number other than NaN, and the
  coercion is a total function.
\<close>

theorem coerceNumber_currency:
  "coerceNumber (JStr s) =
     (case decimalPrefix (trimStart (stripCurrency s)) of
        None \<Rightarrow> JNull
      | Some (n, rest) \<Rightarrow> JNum n)
   \<and> (ip \<noteq> [] \<and> list_all isDigit ip \<and> list_all isDigit fp \<and> stripCurrency t = ip @ ''.'' @ fp
        \<longrightarrow> coerceNumber (JStr t)
              = JNum (Num (of_nat (digitsValue ip) + of_nat (digitsValue fp) / 10 ^ length fp)))
   \<and> coerceNumber (JNum m) = (if m = NaN then JNull else JNum m)
   \<and> (coerceNumber v = JNull \<or> (\<exists>k. k \<noteq> NaN \<and> coerceNumber v = JNum k))
   \<and> coerceNumber (JStr ''$1,234.50'') = JNum (Num (2469 / 2))
   \<and> coerceNumber (JStr ''abc'') = JNull"
proof -
  have a: "coerceNumber (JStr ''$1,234.50'') = JNum (Num (2469 / 2))" by code_simp
  have b: "coerceNumber (JStr ''abc'') = JNull" by code_simp
  have c: "coerceNumber (JStr t)
             = JNum (Num (of_nat (digitsValue ip) + of_nat (digitsValue fp) / 10 ^ length fp))"
    if "ip \<noteq> []" "list_all isDigit ip" "list_all isDigit fp" "stripCurrency t = ip @ ''.'' @ fp"
    using plain_decimal [OF that(1,2,3)] that(4)
    by (simp add: coerceNumber_def isNaN_def del: append.simps)
  show ?thesis
    using a b c coerceNumber_text [of s] coerceNumber_number [of m] coerceNumber_shape [of v]
    by blast
qed

theorem coerceNumber_currency_witness:
  "''1234'' \<noteq> [] \<and> list_all isDigit ''1234'' \<and> list_all isDigit ''50''
   \<and> stripCurrency ''$1,234.50'' = ''1234'' @ ''.'' @ ''50''
   \<and> coerceNumber (JStr ''$1,234.50'')
       = JNum (Num (of_nat (digitsValue ''1234'') + of_nat (digitsValue ''50'') / 10 ^ length ''50''))
   \<and> of_nat (digitsValue ''1234'') + of_nat (digitsValue ''50'') / 10 ^ length ''50'' = (2469 / 2 :: rat)"
proof -
  have a: "list_all isDigit ''1234''" "list_all isDigit ''50''" by code_simp+
  have b: "stripCurrency ''$1,234.50'' = ''1234'' @ ''.'' @ ''50''" by code_simp
  have c: "of_nat (digitsValue ''1234'') + of_nat (digitsValue ''50'') / 10 ^ length ''50'' = (2469 / 2 :: rat)"
    by code_simp
  have "''1234'' \<noteq> []" by simp
  with a b c show ?thesis
    using coerceNumber_currency [of _ "''1234''" "''50''" "''$1,234.50''"] by blast
qed

theorem coerceNumber_trailing_text_counterexample:
  "stripCurrency ''12abc'' = ''12abc'' \<and> stringToNumber ''12abc'' = NaN
   \<and> coerceNumber (JStr ''12abc'') = JNum (Num 12)
   \<and> coerceNumber (JStr ''12abc'') \<noteq> JNull"
proof -
  have a: "stripCurrency ''12abc'' = ''12abc''" by code_simp
  have b: "stringToNumber ''12abc'' = NaN" by code_simp
  have c: "coerceNumber (JStr ''12abc'') = JNum (Num 12)" by code_simp
  show ?thesis unfolding a b c by simp
qed

section \<open>Level of care of a built record\<close>


lemma getProp_update:
  "getProp (AList.update k v al) k' = (if k' = k then v else getProp al k')"
  by (simp add: getProp_def update_conv')

lemma coerceString_shape: "textOrNullish (coerceString env v)"
  by (cases v) (simp_all add: coerceString_def textOrNullish_def)

lemma stringField_coerce:
  assumes "k \<in> set stringFields"
  shows "coerceValue env k v = coerceString env v"
proof -
  have "k \<notin> set dateFields" "k \<notin> set numericFields"
    using assms by (auto simp: stringFields_def dateFields_def numericFields_def)
  then show ?thesis using assms by (simp add: coerceValue_def)
qed

lemma cleanField_text:
  assumes "k \<in> set stringFields" "textOrNullish (getProp cleaned k)"
  shows "textOrNullish (getProp (cleanField env row cleaned h) k)"
proof (cases "lookupField (normalizeFieldName h)")
  case None
  then show ?thesis using assms(2) by (simp add: cleanField_def)
next
  case (Some dbField)
  show ?thesis
  proof (cases "dbField = k")
    case True
    then show ?thesis
      using Some assms(1) by (simp add: cleanField_def getProp_update stringField_coerce coerceString_shape)
  next
    case False
    then show ?thesis
      using Some assms(2) by (simp add: cleanField_def getProp_update)
  qed
qed

lemma foldl_cleanField_text:
  assumes "k \<in> set stringFields"
  shows "textOrNullish (getProp acc k) \<Longrightarrow> textOrNullish (getProp (foldl (cleanField env row) acc hs) k)"
  by (induction hs arbitrary: acc) (simp_all add: cleanField_text [OF assms])

lemma cleanFields_text:
  assumes "k \<in> set stringFields"
  shows "textOrNullish (getProp (cleanFields env row headers) k)"
  unfolding cleanFields_def
  by (rule foldl_cleanField_text [OF assms]) (simp add: getProp_def textOrNullish_def)

lemma truthy_text:
  "textOrNullish v \<Longrightarrow> truthy v \<Longrightarrow> \<exists>s. v = JStr s \<and> s \<noteq> []"
  by (cases v) (simp_all add: textOrNullish_def)

lemma deriveLevelOfCare_nonempty: "deriveLevelOfCare s \<noteq> []"
  by (simp add: deriveLevelOfCare_def Let_def)

lemma levelOfCare_in_stringFields: "''levelOfCare'' \<in> set stringFields"
  by (simp add: stringFields_def)

lemma revenueCode_in_stringFields: "''revenueCode'' \<in> set stringFields"
  by (simp add: stringFields_def)

lemma cleanRow_levelOfCare_text:
  "\<exists>s. getProp (cleanRow env row headers) ''levelOfCare'' = JStr s \<and> s \<noteq> []"
proof -
  let ?c = "cleanFields env row headers"
  have t: "textOrNullish (getProp ?c ''levelOfCare'')"
    by (rule cleanFields_text [OF levelOfCare_in_stringFields])
  show ?thesis
  proof (cases "truthy (getProp ?c ''levelOfCare'')")
    case True
    then show ?thesis
      using truthy_text [OF t True] by (simp add: cleanRow_def Let_def)
  next
    case False
    then show ?thesis
      by (simp add: cleanRow_def Let_def getProp_update deriveLevelOfCare_nonempty)
  qed
qed

lemma startsWith_single: "startsWith s [c] = (firstChar s = Some c)"
  by (cases s) (simp_all add: startsWith_def firstChar_def)

lemma deriveLevelOfCare_rule:
  "s \<noteq> [] \<Longrightarrow> deriveLevelOfCare s = levelOfCareRule (firstChar (trim s))"
  by (simp add: deriveLevelOfCare_def levelOfCareRule_def Let_def startsWith_single)

lemma cleanRow_derived:
  assumes "\<not> truthy (getProp (cleanFields env row headers) ''levelOfCare'')"
  shows "truthy (getProp (cleanFields env row headers) ''revenueCode'') \<Longrightarrow>
           getProp (cleanRow env row headers) ''levelOfCare'' =
             JStr (levelOfCareRule (firstChar (trim (toString env
                (getProp (cleanFields env row headers) ''revenueCode'')))))"
    and "\<not> truthy (getProp (cleanFields env row headers) ''revenueCode'') \<Longrightarrow>
           getProp (cleanRow env row headers) ''levelOfCare'' = JStr ''UNKNOWN''"
proof -
  let ?c = "cleanFields env row headers"
  have t: "textOrNullish (getProp ?c ''revenueCode'')"
    by (rule cleanFields_text [OF revenueCode_in_stringFields])
  {
    assume tr: "truthy (getProp ?c ''revenueCode'')"
    then obtain s where s: "getProp ?c ''revenueCode'' = JStr s" "s \<noteq> []"
      using truthy_text [OF t] by blast
    then show "getProp (cleanRow env row headers) ''levelOfCare'' =
             JStr (levelOfCareRule (firstChar (trim (toString env (getProp ?c ''revenueCode'')))))"
      using assms tr by (simp add: cleanRow_def Let_def getProp_update deriveLevelOfCare_rule)
  }
  {
    assume "\<not> truthy (getProp ?c ''revenueCode'')"
    then show "getProp (cleanRow env row headers) ''levelOfCare'' = JStr ''UNKNOWN''"
      using assms by (simp add: cleanRow_def Let_def getProp_update)
  }
qed

lemma example_no_columns: "getProp (cleanRow env [] []) ''levelOfCare'' = JStr ''UNKNOWN''"
  by (simp add: cleanRow_def cleanFields_def getProp_def)

lemma norm_revenue_code: "normalizeFieldName ''Revenue Code'' = ''revenue_code''"
  by code_simp

lemma lookup_revenue_code: "lookupField ''revenue_code'' = Some ''revenueCode''"
  by code_simp

lemma text_250: "toString env (JNum (Num 250)) = ''250''"
proof -
  have "natText 250 = ''250''" by code_simp
  then show ?thesis by (simp add: numberToString_def)
qed

lemma cleanFields_revenue_250:
  "cleanFields env [(''Revenue Code'', JNum (Num 250))] [''Revenue Code'']
     = [(''revenueCode'', JStr ''250'')]"
  by (simp add: cleanFields_def cleanField_def norm_revenue_code lookup_revenue_code
      stringField_coerce [OF revenueCode_in_stringFields] coerceString_def getProp_def text_250
      del: toString.simps)

lemma derive_250: "deriveLevelOfCare ''250'' = ''PHP''"
  by code_simp

lemma example_revenue_250: "getProp (cleanRow env [(''Revenue Code'', JNum (Num 250))] [''Revenue Code'']) ''levelOfCare'' = JStr ''PHP''"
  by (simp add: cleanRow_def cleanFields_revenue_250 getProp_def derive_250)


lemma cleanFields_no_columns: "cleanFields env [] [] = []"
  by (simp add: cleanFields_def)

lemma cleanRow_falsy:
  assumes "\<not> truthy (getProp (cleanFields env row headers) ''levelOfCare'')"
  shows "getProp (cleanRow env row headers) ''levelOfCare'' =
           (if truthy (getProp (cleanFields env row headers) ''revenueCode'')
            then JStr (deriveLevelOfCare (toString env (getProp (cleanFields env row headers) ''revenueCode'')))
            else JStr ''UNKNOWN'')"
  using assms by (simp add: cleanRow_def Let_def getProp_update)

text \<open>
  Claim C5, as amended. For every record the builder makes: when the coerced
  levelOfCare is null or absent and the coerced revenueCode is present (a non-empty
  text), levelOfCare is derived by the rule table 1 to IOP, 2 to PHP, 3 to RES, 4 to
  DETOX, anything else to OTHER, applied to the first character of the revenue code's
  text after its surrounding white space has been trimmed; when the revenueCode is
  absent too (null, missing or the empty text), levelOfCare is UNKNOWN. A row with
  revenueCode 250 and no levelOfCare gets PHP, a row with neither gets UNKNOWN.
\<close>

theorem levelOfCare_derivation:
  assumes "getProp (cleanFields env row headers) ''levelOfCare'' = JNull
           \<or> getProp (cleanFields env row headers) ''levelOfCare'' = JUndefined"
  shows "(truthy (getProp (cleanFields env row headers) ''revenueCode'') \<longrightarrow>
            getProp (cleanRow env row headers) ''levelOfCare'' =
              JStr (levelOfCareRule (firstChar (trim (toString env
                      (getProp (cleanFields env row headers) ''revenueCode''))))))
         \<and> (\<not> truthy (getProp (cleanFields env row headers) ''revenueCode'') \<longrightarrow>
              getProp (cleanRow env row headers) ''levelOfCare'' = JStr ''UNKNOWN'')
         \<and> (truthy (getProp (cleanFields env row headers) ''revenueCode'') =
              (\<exists>s. getProp (cleanFields env row headers) ''revenueCode'' = JStr s \<and> s \<noteq> []))
         \<and> getProp (cleanRow env [(''Revenue Code'', JNum (Num 250))] [''Revenue Code''])
              ''levelOfCare'' = JStr ''PHP''
         \<and> getProp (cleanRow env [] []) ''levelOfCare'' = JStr ''UNKNOWN''"
proof -
  let ?c = "cleanFields env row headers"
  have f: "\<not> truthy (getProp ?c ''levelOfCare'')"
    using assms by auto
  have t: "textOrNullish (getProp ?c ''revenueCode'')"
    by (rule cleanFields_text [OF revenueCode_in_stringFields])
  have p: "truthy (getProp ?c ''revenueCode'') = (\<exists>s. getProp ?c ''revenueCode'' = JStr s \<and> s \<noteq> [])"
    using truthy_text [OF t] by auto
  show ?thesis
    using cleanRow_derived [OF f] p example_revenue_250 [of env] example_no_columns [of env]
    by blast
qed

theorem levelOfCare_derivation_witness:
  "(getProp (cleanFields exampleEnv [(''Revenue Code'', JStr '' 250A'')] [''Revenue Code'']) ''levelOfCare'' = JNull
    \<or> getProp (cleanFields exampleEnv [(''Revenue Code'', JStr '' 250A'')] [''Revenue Code'']) ''levelOfCare'' = JUndefined)
   \<and> truthy (getProp (cleanFields exampleEnv [(''Revenue Code'', JStr '' 250A'')] [''Revenue Code'']) ''revenueCode'')
   \<and> getProp (cleanRow exampleEnv [(''Revenue Code'', JStr '' 250A'')] [''Revenue Code'']) ''levelOfCare''
       = JStr (levelOfCareRule (firstChar (trim (toString exampleEnv
           (getProp (cleanFields exampleEnv [(''Revenue Code'', JStr '' 250A'')] [''Revenue Code'']) ''revenueCode'')))))
   \<and> levelOfCareRule (firstChar (trim '' 250A'')) = ''PHP''
   \<and> (getProp (cleanFields exampleEnv [(''LOC'', JNull)] [''LOC'']) ''levelOfCare'' = JNull
    \<or> getProp (cleanFields exampleEnv [(''LOC'', JNull)] [''LOC'']) ''levelOfCare'' = JUndefined)
   \<and> (truthy (getProp (cleanFields exampleEnv [(''LOC'', JNull)] [''LOC'']) ''revenueCode'') = False)
   \<and> getProp (cleanRow exampleEnv [(''LOC'', JNull)] [''LOC'']) ''levelOfCare'' = JStr ''UNKNOWN''"
proof -
  have a: "getProp (cleanFields exampleEnv [(''Revenue Code'', JStr '' 250A'')] [''Revenue Code'']) ''levelOfCare'' = JUndefined"
    by code_simp
  have b: "truthy (getProp (cleanFields exampleEnv [(''Revenue Code'', JStr '' 250A'')] [''Revenue Code'']) ''revenueCode'')"
    by code_simp
  have c: "levelOfCareRule (firstChar (trim '' 250A'')) = ''PHP''"
    by code_simp
  have d: "getProp (cleanFields exampleEnv [(''LOC'', JNull)] [''LOC'']) ''levelOfCare'' = JNull"
    by code_simp
  have e: "\<not> truthy (getProp (cleanFields exampleEnv [(''LOC'', JNull)] [''LOC'']) ''revenueCode'')"
    by code_simp
  show ?thesis
    using levelOfCare_derivation [of exampleEnv "[(''Revenue Code'', JStr '' 250A'')]" "[''Revenue Code'']"]
      levelOfCare_derivation [of exampleEnv "[(''LOC'', JNull)]" "[''LOC'']"] a b c d e
    by blast
qed

theorem levelOfCare_first_character_counterexample:
  "getProp (cleanFields exampleEnv [(''Revenue Code'', JStr '' 250A'')] [''Revenue Code'']) ''levelOfCare''
     = JUndefined
   \<and> getProp (cleanFields exampleEnv [(''Revenue Code'', JStr '' 250A'')] [''Revenue Code'']) ''revenueCode''
     = JStr '' 250A''
   \<and> getProp (cleanRow exampleEnv [(''Revenue Code'', JStr '' 250A'')] [''Revenue Code'']) ''levelOfCare''
     = JStr ''PHP''
   \<and> levelOfCareRule (firstChar (toString exampleEnv (JStr '' 250A''))) = ''OTHER''"
proof -
  have a: "getProp (cleanFields exampleEnv [(''Revenue Code'', JStr '' 250A'')] [''Revenue Code'']) ''levelOfCare''
             = JUndefined"
    by code_simp
  have b: "getProp (cleanFields exampleEnv [(''Revenue Code'', JStr '' 250A'')] [''Revenue Code'']) ''revenueCode''
             = JStr '' 250A''"
    by code_simp
  have c: "getProp (cleanRow exampleEnv [(''Revenue Code'', JStr '' 250A'')] [''Revenue Code'']) ''levelOfCare''
             = JStr ''PHP''"
    by code_simp
  have d: "levelOfCareRule (firstChar (toString exampleEnv (JStr '' 250A''))) = ''OTHER''"
    by code_simp
  show ?thesis using a b c d by blast
qed

text \<open>
  Claim C10. For every raw row and header list the record the builder returns has a
  levelOfCare that is a non-empty text. A coerced levelOfCare that is falsy (null,
  undefined or the empty text) is treated as missing: it is replaced by the value
  derived from the revenueCode when that is present and by UNKNOWN otherwise; a
  coerced levelOfCare that is not falsy is kept.
\<close>

theorem cleanRow_levelOfCare_nonempty:
  "(\<exists>s. getProp (cleanRow env row headers) ''levelOfCare'' = JStr s \<and> s \<noteq> [])
   \<and> (getProp (cleanFields env row headers) ''levelOfCare'' \<in> {JNull, JUndefined, JStr []}
        \<longrightarrow> getProp (cleanRow env row headers) ''levelOfCare'' =
              (if truthy (getProp (cleanFields env row headers) ''revenueCode'')
               then JStr (deriveLevelOfCare (toString env
                            (getProp (cleanFields env row headers) ''revenueCode'')))
               else JStr ''UNKNOWN''))
   \<and> (truthy (getProp (cleanFields env row headers) ''levelOfCare'')
        \<longrightarrow> getProp (cleanRow env row headers) ''levelOfCare''
              = getProp (cleanFields env row headers) ''levelOfCare'')"
proof -
  let ?c = "cleanFields env row headers"
  have a: "\<exists>s. getProp (cleanRow env row headers) ''levelOfCare'' = JStr s \<and> s \<noteq> []"
    by (rule cleanRow_levelOfCare_text)
  have b: "getProp (cleanRow env row headers) ''levelOfCare'' =
              (if truthy (getProp ?c ''revenueCode'')
               then JStr (deriveLevelOfCare (toString env (getProp ?c ''revenueCode'')))
               else JStr ''UNKNOWN'')"
    if "getProp ?c ''levelOfCare'' \<in> {JNull, JUndefined, JStr []}"
  proof -
    have "\<not> truthy (getProp ?c ''levelOfCare'')" using that by auto
    then show ?thesis by (rule cleanRow_falsy)
  qed
  have c: "getProp (cleanRow env row headers) ''levelOfCare'' = getProp ?c ''levelOfCare''"
    if "truthy (getProp ?c ''levelOfCare'')"
    using that by (simp add: cleanRow_def Let_def)
  show ?thesis using a b c by blast
qed

theorem cleanRow_levelOfCare_nonempty_witness:
  "getProp (cleanFields exampleEnv [(''LOC'', JStr []), (''Revenue Code'', JStr ''305'')]
              [''LOC'', ''Revenue Code'']) ''levelOfCare'' \<in> {JNull, JUndefined, JStr []}
   \<and> getProp (cleanRow exampleEnv [(''LOC'', JStr []), (''Revenue Code'', JStr ''305'')]
              [''LOC'', ''Revenue Code'']) ''levelOfCare'' = JStr ''RES''
   \<and> truthy (getProp (cleanFields exampleEnv [(''LOC'', JStr ''IOP'')] [''LOC'']) ''levelOfCare'')
   \<and> getProp (cleanRow exampleEnv [(''LOC'', JStr ''IOP'')] [''LOC'']) ''levelOfCare'' = JStr ''IOP''"
proof -
  let ?r = "[(''LOC'', JStr []), (''Revenue Code'', JStr ''305'')]"
  let ?h = "[''LOC'', ''Revenue Code'']"
  have a: "getProp (cleanFields exampleEnv ?r ?h) ''levelOfCare'' = JStr []" by code_simp
  have b: "getProp (cleanFields exampleEnv ?r ?h) ''revenueCode'' = JStr ''305''" by code_simp
  have c: "deriveLevelOfCare ''305'' = ''RES''" by code_simp
  have d: "getProp (cleanFields exampleEnv [(''LOC'', JStr ''IOP'')] [''LOC'']) ''levelOfCare'' = JStr ''IOP''"
    by code_simp
  show ?thesis
    using cleanRow_levelOfCare_nonempty [of exampleEnv ?r ?h]
      cleanRow_levelOfCare_nonempty [of exampleEnv "[(''LOC'', JStr ''IOP'')]" "[''LOC'']"]
    by (simp add: a b c d)
qed
section \<open>Calendar-date coercion\<close>

text \<open>
  The year computed from a day number is the year of the language definition: the
  largest \<open>y\<close> whose first day is not after \<open>d\<close>.
\<close>


lemma div_bounds:
  assumes "(0::int) < k"
  shows "k * (x div k) \<le> x" "x < k * (x div k) + k"
proof -
  have "x = k * (x div k) + x mod k" by simp
  moreover have "0 \<le> x mod k" "x mod k < k" using assms by simp_all
  ultimately show "k * (x div k) \<le> x" "x < k * (x div k) + k" by linarith+
qed

lemma dayFromYear_bounds:
  "146097 * (y - 1970) - 800 \<le> 400 * dayFromYear y"
  "400 * dayFromYear y \<le> 146097 * (y - 1970) + 800"
proof -
  define q4 where "q4 = (y - 1969) div 4"
  define q100 where "q100 = (y - 1901) div 100"
  define q400 where "q400 = (y - 1601) div 400"
  have a: "4 * q4 \<le> y - 1969" "y - 1969 < 4 * q4 + 4"
    unfolding q4_def by (rule div_bounds, simp)+
  have b: "100 * q100 \<le> y - 1901" "y - 1901 < 100 * q100 + 100"
    unfolding q100_def by (rule div_bounds, simp)+
  have c: "400 * q400 \<le> y - 1601" "y - 1601 < 400 * q400 + 400"
    unfolding q400_def by (rule div_bounds, simp)+
  have d: "dayFromYear y = 365 * (y - 1970) + q4 - q100 + q400"
    by (simp add: dayFromYear_def q4_def q100_def q400_def)
  show "146097 * (y - 1970) - 800 \<le> 400 * dayFromYear y"
    unfolding d using a b c by simp
  show "400 * dayFromYear y \<le> 146097 * (y - 1970) + 800"
    unfolding d using a b c by simp
qed

lemma yearFromDay_correct:
  "dayFromYear (yearFromDay d) \<le> d \<and> d < dayFromYear (yearFromDay d + 1)"
proof -
  define q where "q = (d * 400) div 146097"
  define y where "y = 1970 + q"
  have e: "146097 * q \<le> d * 400" "d * 400 < 146097 * q + 146097"
    unfolding q_def by (rule div_bounds, simp)+
  define lo where "lo = dayFromYear (y - 1)"
  define hi where "hi = dayFromYear (y + 1 + 1)"
  have l: "400 * lo \<le> 146097 * (y - 1 - 1970) + 800"
    unfolding lo_def by (rule dayFromYear_bounds)
  have h: "146097 * (y + 1 + 1 - 1970) - 800 \<le> 400 * hi"
    unfolding hi_def by (rule dayFromYear_bounds)
  have lo: "lo \<le> d" using l e unfolding y_def by simp
  have hi: "d < hi" using h e unfolding y_def by simp
  have "yearFromDay d = (if dayFromYear (y + 1) \<le> d then y + 1 else if dayFromYear y \<le> d then y else y - 1)"
    by (simp add: yearFromDay_def y_def q_def Let_def)
  then show ?thesis using lo hi unfolding lo_def hi_def by auto
qed



lemma epoch_day: "makeDay 1899 11 30 = - 25569"
  by (simp add: makeDay_def dayFromYear_def monthStart_def inLeapYear_def)

lemma epoch_fields:
  "yearFromDay (- 25569) = 1899" "monthFromDay (- 25569) = 11" "dateFromDay (- 25569) = 30"
  by code_simp+

lemma makeDay_shift: "makeDay y m (d + k) = makeDay y m d + k"
  by (simp add: makeDay_def Let_def)

lemma local_day_of_midnight:
  "localTime env (d * msPerDay - localTZA env) div msPerDay = d"
  "localTime env (d * msPerDay - localTZA env) mod msPerDay = 0"
  by (simp_all add: localTime_def msPerDay_def)

lemma fields_of_midnight:
  "getFullYear env (localMidnight env d) = Some (yearFromDay d)"
  "getMonth env (localMidnight env d) = Some (monthFromDay d)"
  "getDate env (localMidnight env d) = Some (dateFromDay d)"
  by (simp_all add: localMidnight_def local_day_of_midnight)

lemma clip_midnight:
  assumes "\<bar>localTZA env\<bar> < msPerDay" "\<bar>d\<bar> < 100000000"
  shows "timeClip (utcTime env (makeDate d 0)) = localMidnight env d"
  using assms by (simp add: timeClip_def utcTime_def makeDate_def localMidnight_def msPerDay_def)

lemma excelEpoch_value:
  assumes "\<bar>localTZA env\<bar> < msPerDay"
  shows "excelEpoch env = localMidnight env (- 25569)"
  unfolding excelEpoch_def newDateYMD_def
  by (simp add: epoch_day clip_midnight [OF assms])

lemma setDate_midnight:
  assumes "\<bar>localTZA env\<bar> < msPerDay"
    and "\<bar>makeDay (yearFromDay d) (monthFromDay d) (truncateNum n)\<bar> < 100000000"
  shows "setDate env (localMidnight env d) (Num n)
           = localMidnight env (makeDay (yearFromDay d) (monthFromDay d) (truncateNum n))"
proof -
  have "setDate env (localMidnight env d) (Num n)
          = timeClip (utcTime env (makeDate (makeDay (yearFromDay d) (monthFromDay d) (truncateNum n)) 0))"
    by (simp add: localMidnight_def local_day_of_midnight Let_def)
  then show ?thesis by (simp only: clip_midnight [OF assms])
qed

lemma excelSerialDate_value:
  assumes "\<bar>localTZA env\<bar> < msPerDay" "1000 < r" "r < 100000"
  shows "excelSerialDate env (Num r) = localMidnight env (- 25569 + \<lfloor>r\<rfloor>)"
proof -
  have fl: "1000 \<le> \<lfloor>r\<rfloor>" "\<lfloor>r\<rfloor> < 100000"
    using assms(2,3) by (simp_all add: le_floor_iff floor_less_iff)
  have tr: "truncateNum (30 + r) = 30 + \<lfloor>r\<rfloor>"
    using assms(2) by (simp add: truncateNum_def)
  have md: "makeDay 1899 11 (30 + \<lfloor>r\<rfloor>) = - 25569 + \<lfloor>r\<rfloor>"
    using makeDay_shift [of 1899 11 30 "\<lfloor>r\<rfloor>"] by (simp only: epoch_day)
  have bd: "\<bar>- 25569 + \<lfloor>r\<rfloor>\<bar> < 100000000"
    using fl by linarith
  have "excelSerialDate env (Num r) = setDate env (localMidnight env (- 25569)) (Num (30 + r))"
    by (simp add: excelSerialDate_def excelEpoch_value [OF assms(1)] fields_of_midnight epoch_fields)
  also have "\<dots> = localMidnight env (makeDay (yearFromDay (- 25569)) (monthFromDay (- 25569)) (truncateNum (30 + r)))"
    by (rule setDate_midnight [OF assms(1)]) (simp only: epoch_fields tr md bd)
  finally show ?thesis by (simp add: epoch_fields tr md)
qed

lemma parseDate_serial:
  assumes "\<bar>localTZA env\<bar> < msPerDay" "1000 < r" "r < 100000"
  shows "parseDate env (JNum (Num r)) = JDate (localMidnight env (- 25569 + \<lfloor>r\<rfloor>))"
  using assms(2,3) by (simp add: excelSerialDate_value [OF assms])

lemma parseDate_small: "r < 1000 \<Longrightarrow> parseDate env (JNum (Num r)) = JNull"
  by simp

lemma parseDate_seconds:
  assumes "r = 1000 \<or> 100000 \<le> r" "r < 10000000000"
  shows "parseDate env (JNum (Num r)) = JDate (DateAt \<lfloor>r * 1000\<rfloor>)"
proof -
  have pos: "1000 \<le> r" using assms(1) by auto
  have b: "\<lfloor>r * 1000\<rfloor> < 10000000000000" "0 \<le> \<lfloor>r * 1000\<rfloor>"
    using assms(2) pos by (simp_all add: floor_less_iff)
  have "truncateNum (r * 1000) = \<lfloor>r * 1000\<rfloor>" using pos by (simp add: truncateNum_def)
  then show ?thesis using assms b pos by (auto simp: timeClip_def)
qed

lemma parseDate_millis:
  assumes "10000000000 \<le> r"
  shows "parseDate env (JNum (Num r)) = JDate (if r < 8640000000000001 then DateAt \<lfloor>r\<rfloor> else InvalidDate)"
proof -
  have "truncateNum r = \<lfloor>r\<rfloor>" using assms by (simp add: truncateNum_def)
  moreover have "0 \<le> \<lfloor>r\<rfloor>" using assms by simp
  moreover have "(\<lfloor>r\<rfloor> \<le> 8640000000000000) = (r < 8640000000000001)"
    by (simp add: floor_le_iff)
  ultimately show ?thesis using assms by (simp add: timeClip_def)
qed

lemma parseDate_shape: "parseDate env v = JNull \<or> (\<exists>d. parseDate env v = JDate d)"
  by (cases v) (auto simp: Let_def)

lemma parseDate_blank: "trim s = [] \<Longrightarrow> parseDate env (JStr s) = JNull"
  by simp

lemma parseDate_mdy:
  "isMonthDayYear (trim s) \<Longrightarrow> parseDate env (JStr s) = JDate (monthDayYearDate env (trim s))"
  by (auto simp: Let_def isMonthDayYear_def)

lemma day_18628: "yearFromDay 18628 = 2021" "monthFromDay 18628 = 0" "dateFromDay 18628 = 1"
  by code_simp+


lemma slash_not_digit: "\<not> isDigit CHR ''/''"
  by (simp add: isDigit_def)

lemma splitOn_prefix:
  "sep \<notin> set p \<Longrightarrow> splitOn sep (p @ sep # rest) = p # splitOn sep rest"
proof (induction p)
  case Nil
  then show ?case by simp
next
  case (Cons c p)
  then show ?case by (cases "splitOn sep (p @ sep # rest)") auto
qed

lemma splitOn_none: "sep \<notin> set p \<Longrightarrow> splitOn sep p = [p]"
  by (induction p) auto

lemma digits_no_slash: "list_all isDigit ds \<Longrightarrow> CHR ''/'' \<notin> set ds"
  using slash_not_digit by (auto simp: list_all_iff)

lemma splitOn_mdy:
  assumes "list_all isDigit m" "list_all isDigit d" "list_all isDigit y"
  shows "splitOn CHR ''/'' (m @ ''/'' @ d @ ''/'' @ y) = [m, d, y]"
  using assms
  by (simp add: splitOn_prefix splitOn_none digits_no_slash)

lemma stringToNumber_digits:
  assumes "ds \<noteq> []" "list_all isDigit ds"
  shows "stringToNumber ds = Num (of_nat (digitsValue ds))"
proof -
  obtain c cs where ds: "ds = c # cs" using assms(1) by (cases ds) auto
  have dc: "isDigit c" and dcs: "list_all isDigit cs" using assms(2) ds by simp_all
  have ns: "\<forall>c \<in> set ds. \<not> isWhiteSpace c"
    using assms(2) digit_not_space by (auto simp: list_all_iff)
  have t: "trim ds = ds" by (rule trim_no_space [OF ns])
  have second: "take 2 ds \<noteq> [CHR ''0'', x]" if "\<not> isDigit x" for x
  proof (cases cs)
    case Nil
    then show ?thesis using ds by simp
  next
    case (Cons e es)
    then have "isDigit e" using dcs by simp
    then show ?thesis using ds Cons that by auto
  qed
  have nx: "take 2 ds \<noteq> ''0x''" "take 2 ds \<noteq> ''0X''" "take 2 ds \<noteq> ''0o''" "take 2 ds \<noteq> ''0O''"
    "take 2 ds \<noteq> ''0b''" "take 2 ds \<noteq> ''0B''"
    by (rule second, simp add: isDigit_def)+
  have sgn: "c \<noteq> CHR ''-''" "c \<noteq> CHR ''+''"
    using dc by (auto simp: isDigit_def)
  have ninf: "take 8 ds \<noteq> ''Infinity''"
    using dc ds by (auto simp: isDigit_def)
  have tw: "takeWhile isDigit ds = ds" "dropWhile isDigit ds = []"
    using assms(2) by (simp_all add: list_all_iff)
  have u: "unsignedDecimalPrefix ds = Some (Num (of_nat (digitsValue ds)), [])"
    using ninf assms(1)
    by (simp add: unsignedDecimalPrefix_def tw exponentPart_def scale10_def digitsValue_def)
  have "decimalPrefix ds = unsignedDecimalPrefix ds"
    using sgn ds by (simp add: decimalPrefix_def)
  then show ?thesis
    using nx assms(1) by (simp add: stringToNumber_def t u Let_def)
qed

lemma truncateNum_of_nat: "truncateNum (of_nat n) = int n" "truncateNum (of_nat n - 1) = int n - 1"
proof -
  show "truncateNum (of_nat n) = int n" by (simp add: truncateNum_def)
  have "(of_nat n - 1 :: rat) = of_int (int n - 1)" by simp
  then show "truncateNum (of_nat n - 1) = int n - 1"
    unfolding truncateNum_def by (simp only: floor_of_int ceiling_of_int if_cancel)
qed

lemma monthDayYear_digits:
  assumes "m \<noteq> []" "d \<noteq> []" "y \<noteq> []"
    and "list_all isDigit m" "list_all isDigit d" "list_all isDigit y"
  shows "monthDayYearDate env (m @ ''/'' @ d @ ''/'' @ y)
           = newDateYMD env (int (digitsValue y)) (int (digitsValue m) - 1) (int (digitsValue d))"
  by (simp add: monthDayYearDate_def splitOn_mdy [OF assms(4,5,6)]
      stringToNumber_digits assms truncateNum_of_nat del: append.simps)

lemma isMonthDayYear_digits:
  assumes "list_all isDigit m" "list_all isDigit d" "list_all isDigit y"
  shows "isMonthDayYear (m @ ''/'' @ d @ ''/'' @ y)
           = ((length m = 1 \<or> length m = 2) \<and> (length d = 1 \<or> length d = 2) \<and> length y = 4)"
  by (simp add: isMonthDayYear_def splitOn_mdy [OF assms] assms del: append.simps)

lemma mdy_example:
  "monthDayYearDate env ''01/15/2023'' = newDateYMD env 2023 0 15"
proof -
  have a: "list_all isDigit ''01''" "list_all isDigit ''15''" "list_all isDigit ''2023''" by code_simp+
  have b: "digitsValue ''01'' = 1" "digitsValue ''15'' = 15" "digitsValue ''2023'' = 2023" by code_simp+
  show ?thesis
    using monthDayYear_digits [of "''01''" "''15''" "''2023''" env] a by (simp add: b)
qed

lemma day_19372: "makeDay 2023 0 15 = 19372" "yearFromDay 19372 = 2023" "monthFromDay 19372 = 0" "dateFromDay 19372 = 15"
  by code_simp+

lemma newDate_2023:
  assumes "\<bar>localTZA env\<bar> < msPerDay"
  shows "newDateYMD env 2023 0 15 = localMidnight env 19372"
  unfolding newDateYMD_def by (simp add: day_19372 clip_midnight [OF assms])


text \<open>
  Claim C2, as amended. parseDate of fixedFileParser.server.ts resolves its input in this
  order, in a zone whose offset is less than a day: null or absent input yields null; a
  number below 1000 yields null; a number strictly between 1000 and 100000 is a day
  count from the epoch 1899-12-30 and yields the local midnight that many whole days
  after it (44197 yields 2021-01-01); any other number below 10,000,000,000, that is
  1000 itself or a number from 100000 on, is a Unix timestamp in seconds; any other
  number is a Unix timestamp in milliseconds (an invalid date when it is NaN, infinite
  or out of the range of dates); a text that, once trimmed, matches
  \<^verbatim>\<open>\d{1,2}/\d{1,2}/\d{4}\<close> is read as month/day/year (01/15/2023 yields
  2023-01-15); an empty or white-space-only text yields null. The function is total:
  every input yields null or a date and nothing is raised.
\<close>

theorem parseDate_resolution_order:
  assumes "\<bar>localTZA env\<bar> < msPerDay"
  shows "parseDate env JNull = JNull \<and> parseDate env JUndefined = JNull
    \<and> (r < 1000 \<longrightarrow> parseDate env (JNum (Num r)) = JNull)
    \<and> (1000 < r \<and> r < 100000 \<longrightarrow>
          parseDate env (JNum (Num r)) = JDate (localMidnight env (makeDay 1899 11 30 + \<lfloor>r\<rfloor>)))
    \<and> parseDate env (JNum (Num 44197)) = JDate (localMidnight env 18628)
    \<and> getFullYear env (localMidnight env 18628) = Some 2021
    \<and> getMonth env (localMidnight env 18628) = Some 0
    \<and> getDate env (localMidnight env 18628) = Some 1
    \<and> ((r = 1000 \<or> 100000 \<le> r) \<and> r < 10000000000 \<longrightarrow>
          parseDate env (JNum (Num r)) = JDate (DateAt \<lfloor>r * 1000\<rfloor>))
    \<and> (10000000000 \<le> r \<longrightarrow>
          parseDate env (JNum (Num r))
            = JDate (if r < 8640000000000001 then DateAt \<lfloor>r\<rfloor> else InvalidDate))
    \<and> parseDate env (JNum NaN) = JDate InvalidDate
    \<and> parseDate env (JNum PosInfinity) = JDate InvalidDate
    \<and> parseDate env (JNum NegInfinity) = JNull
    \<and> (list_all isDigit m \<and> list_all isDigit d \<and> list_all isDigit y
         \<and> (length m = 1 \<or> length m = 2) \<and> (length d = 1 \<or> length d = 2) \<and> length y = 4
         \<and> trim s = m @ ''/'' @ d @ ''/'' @ y \<longrightarrow>
          parseDate env (JStr s)
            = JDate (newDateYMD env (int (digitsValue y)) (int (digitsValue m) - 1)
                       (int (digitsValue d))))
    \<and> parseDate env (JStr ''01/15/2023'') = JDate (localMidnight env 19372)
    \<and> getFullYear env (localMidnight env 19372) = Some 2023
    \<and> getMonth env (localMidnight env 19372) = Some 0
    \<and> getDate env (localMidnight env 19372) = Some 15
    \<and> (trim t = [] \<longrightarrow> parseDate env (JStr t) = JNull)
    \<and> (parseDate env v = JNull \<or> (\<exists>dt. parseDate env v = JDate dt))"
proof -
  have serial: "parseDate env (JNum (Num r)) = JDate (localMidnight env (makeDay 1899 11 30 + \<lfloor>r\<rfloor>))"
    if "1000 < r" "r < 100000"
    using parseDate_serial [OF assms that] by (simp only: epoch_day)
  have s44197: "parseDate env (JNum (Num 44197)) = JDate (localMidnight env 18628)"
    using parseDate_serial [OF assms, of 44197] by simp
  have mdy: "parseDate env (JStr s)
               = JDate (newDateYMD env (int (digitsValue y)) (int (digitsValue m) - 1)
                          (int (digitsValue d)))"
    if dg: "list_all isDigit m" "list_all isDigit d" "list_all isDigit y"
      and ln: "length m = 1 \<or> length m = 2" "length d = 1 \<or> length d = 2" "length y = 4"
      and tr: "trim s = m @ ''/'' @ d @ ''/'' @ y"
  proof -
    have ne: "m \<noteq> []" "d \<noteq> []" "y \<noteq> []" using ln by auto
    have "isMonthDayYear (trim s)"
      unfolding tr using isMonthDayYear_digits [OF dg] ln by simp
    then have "parseDate env (JStr s) = JDate (monthDayYearDate env (trim s))"
      by (rule parseDate_mdy)
    then show ?thesis
      unfolding tr by (simp only: monthDayYear_digits [OF ne dg])
  qed
  have ex: "parseDate env (JStr ''01/15/2023'') = JDate (localMidnight env 19372)"
  proof -
    have "trim ''01/15/2023'' = ''01/15/2023''" by code_simp
    moreover have "isMonthDayYear ''01/15/2023''" by code_simp
    ultimately have "parseDate env (JStr ''01/15/2023'') = JDate (monthDayYearDate env ''01/15/2023'')"
      using parseDate_mdy [of "''01/15/2023''" env] by simp
    then show ?thesis by (simp only: mdy_example newDate_2023 [OF assms])
  qed
  have nonfinite: "parseDate env (JNum NaN) = JDate InvalidDate"
    "parseDate env (JNum PosInfinity) = JDate InvalidDate"
    "parseDate env (JNum NegInfinity) = JNull"
    by simp_all
  have nulls: "parseDate env JNull = JNull" "parseDate env JUndefined = JNull"
    by simp_all
  show ?thesis
    using nulls parseDate_small [of r env] serial s44197 fields_of_midnight [of env 18628]
      parseDate_seconds [of r env] parseDate_millis [of r env] nonfinite mdy ex
      fields_of_midnight [of env 19372] parseDate_blank [of t env] parseDate_shape [of env v]
    unfolding day_18628 day_19372
    by blast
qed

theorem parseDate_resolution_order_witness:
  "\<bar>localTZA exampleEnv\<bar> < msPerDay
   \<and> (500 :: rat) < 1000 \<and> parseDate exampleEnv (JNum (Num 500)) = JNull
   \<and> (1000 :: rat) < 44197 \<and> (44197 :: rat) < 100000
   \<and> parseDate exampleEnv (JNum (Num 44197)) = JDate (DateAt 1609459200000)
   \<and> (100000 :: rat) \<le> 1700000000 \<and> (1700000000 :: rat) < 10000000000
   \<and> parseDate exampleEnv (JNum (Num 1700000000)) = JDate (DateAt 1700000000000)
   \<and> parseDate exampleEnv (JNum (Num 1000)) = JDate (DateAt 1000000)
   \<and> (10000000000 :: rat) \<le> 1700000000000
   \<and> parseDate exampleEnv (JNum (Num 1700000000000)) = JDate (DateAt 1700000000000)
   \<and> list_all isDigit ''01'' \<and> list_all isDigit ''15'' \<and> list_all isDigit ''2023''
   \<and> trim '' 01/15/2023 '' = ''01'' @ ''/'' @ ''15'' @ ''/'' @ ''2023''
   \<and> parseDate exampleEnv (JStr '' 01/15/2023 '') = JDate (DateAt 1673740800000)
   \<and> trim ''   '' = [] \<and> parseDate exampleEnv (JStr ''   '') = JNull"
proof -
  have tz: "\<bar>localTZA exampleEnv\<bar> < msPerDay"
    by (simp add: exampleEnv_def msPerDay_def)
  have dg: "list_all isDigit ''01''" "list_all isDigit ''15''" "list_all isDigit ''2023''"
    by code_simp+
  have tr: "trim '' 01/15/2023 '' = ''01'' @ ''/'' @ ''15'' @ ''/'' @ ''2023''" by code_simp
  have bl: "trim ''   '' = []" by code_simp
  have v1: "localMidnight exampleEnv (makeDay 1899 11 30 + \<lfloor>44197 :: rat\<rfloor>) = DateAt 1609459200000"
    by (simp add: epoch_day localMidnight_def exampleEnv_def msPerDay_def)
  have v2: "newDateYMD exampleEnv (int (digitsValue ''2023'')) (int (digitsValue ''01'') - 1)
              (int (digitsValue ''15'')) = DateAt 1673740800000"
    by code_simp
  have a: "parseDate exampleEnv (JNum (Num 500)) = JNull"
    using parseDate_resolution_order [OF tz, where r = 500] by simp
  have b: "parseDate exampleEnv (JNum (Num 44197)) = JDate (DateAt 1609459200000)"
    using parseDate_resolution_order [OF tz, where r = 44197] v1 by simp
  have c: "parseDate exampleEnv (JNum (Num 1700000000)) = JDate (DateAt 1700000000000)"
    using parseDate_resolution_order [OF tz, where r = 1700000000] by simp
  have d: "parseDate exampleEnv (JNum (Num 1000)) = JDate (DateAt 1000000)"
    using parseDate_resolution_order [OF tz, where r = 1000] by simp
  have e: "parseDate exampleEnv (JNum (Num 1700000000000)) = JDate (DateAt 1700000000000)"
    using parseDate_resolution_order [OF tz, where r = 1700000000000] by simp
  have f: "parseDate exampleEnv (JStr '' 01/15/2023 '') = JDate (DateAt 1673740800000)"
    using parseDate_resolution_order [OF tz, where s = "'' 01/15/2023 ''" and m = "''01''"
        and d = "''15''" and y = "''2023''"] dg tr v2
    by simp
  have g: "parseDate exampleEnv (JStr ''   '') = JNull"
    using parseDate_resolution_order [OF tz, where t = "''   ''"] bl by blast
  show ?thesis
    using tz dg tr bl a b c d e f g by simp
qed

theorem parseDate_small_number_counterexample:
  "numLess (Num 500) 10000000000
   \<and> \<not> (numGreater (Num 500) 1000 \<and> numLess (Num 500) 100000)
   \<and> newDateNumber (timesThousand (Num 500)) = DateAt 500000
   \<and> parseDate exampleEnv (JNum (Num 500)) = JNull
   \<and> parseDate exampleEnv (JNum (Num 500)) \<noteq> JDate (newDateNumber (timesThousand (Num 500)))
   \<and> parseDate_root exampleEnv (JNum (Num 500)) = JDate (DateAt 500000)"
  by (simp add: timeClip_def truncateNum_def)
section \<open>Batch persistence\<close>


lemma problematicRecords_append:
  "problematicRecords (xs @ ys) = problematicRecords xs @ problematicRecords ys"
  by (induction xs rule: problematicRecords.induct) auto

lemma saveIndividually_count:
  "savedCount (saveIndividually db rs st) + length (problematicRecords (saveLog (saveIndividually db rs st)))
     = savedCount st + length (problematicRecords (saveLog st)) + length rs"
  by (induction rs arbitrary: st)
     (auto simp: problematicRecords_append split: prod.splits option.splits)

lemma saveIndividually_failed:
  "set (problematicRecords (saveLog (saveIndividually db rs st)))
     \<subseteq> set (problematicRecords (saveLog st)) \<union> set rs"
proof (induction rs arbitrary: st)
  case Nil
  then show ?case by simp
next
  case (Cons r rs)
  show ?case
  proof (cases "createOne db (store st) r")
    case (Pair err s')
    show ?thesis
    proof (cases err)
      case None
      then show ?thesis
        using Pair Cons [of "st\<lparr>savedCount := savedCount st + 1, store := s'\<rparr>"] by auto
    next
      case (Some e)
      then show ?thesis
        using Pair
          Cons [of "st\<lparr>saveLog := saveLog st @ [IndividualFailure e, ProblematicRecord r], store := s'\<rparr>"]
        by (auto simp: problematicRecords_append)
    qed
  qed
qed

text \<open>What one record's attempt does, depending on the store's answer.\<close>

lemma saveIndividually_success:
  "createOne db (store st) r = (None, s') \<Longrightarrow>
     saveIndividually db (r # rs) st
       = saveIndividually db rs (st\<lparr>savedCount := savedCount st + 1, store := s'\<rparr>)"
  by simp

lemma saveBatch_count:
  "savedCount (saveBatch db data i st) + length (problematicRecords (saveLog (saveBatch db data i st)))
     = savedCount st + length (problematicRecords (saveLog st)) + length (take 50 (drop i data))"
proof (cases "createMany db (store st) (map processRecord (take 50 (drop i data)))")
  case (Pair err s')
  show ?thesis
  proof (cases err)
    case None
    then show ?thesis using Pair
      by (simp add: saveBatch_def Let_def problematicRecords_append)
  next
    case (Some e)
    then show ?thesis using Pair
      by (simp add: saveBatch_def Let_def saveIndividually_count problematicRecords_append)
  qed
qed

lemma saveBatch_failed:
  "set (problematicRecords (saveLog (saveBatch db data i st)))
     \<subseteq> set (problematicRecords (saveLog st)) \<union> set (map processRecord data)"
proof (cases "createMany db (store st) (map processRecord (take 50 (drop i data)))")
  case (Pair err s')
  have sub: "set (map processRecord (take 50 (drop i data))) \<subseteq> set (map processRecord data)"
    by (auto dest!: in_set_takeD in_set_dropD)
  show ?thesis
  proof (cases err)
    case None
    then show ?thesis using Pair
      by (simp add: saveBatch_def Let_def problematicRecords_append)
  next
    case (Some e)
    let ?st = "st\<lparr>saveLog := saveLog st @ [SavingBatch (i div 50 + 1) ((length data + 49) div 50) (length (take 50 (drop i data))), BatchError (i div 50 + 1) e, AttemptingIndividually], store := s'\<rparr>"
    have eq: "saveBatch db data i st = saveIndividually db (map processRecord (take 50 (drop i data))) ?st"
      using Pair Some by (simp add: saveBatch_def Let_def)
    have l: "set (problematicRecords (saveLog ?st)) = set (problematicRecords (saveLog st))"
      by (simp add: problematicRecords_append)
    have "set (problematicRecords (saveLog (saveIndividually db (map processRecord (take 50 (drop i data))) ?st)))
            \<subseteq> set (problematicRecords (saveLog ?st)) \<union> set (map processRecord (take 50 (drop i data)))"
      by (rule saveIndividually_failed)
    then show ?thesis
      unfolding eq l using sub by blast
  qed
qed

lemma batch_index: "(50 * k < length data) = (k < batchCount data)"
  by (auto simp: batchCount_def)

lemma saveLoop_fold:
  "k \<le> batchCount data \<Longrightarrow>
     saveLoop db data (50 * k) st
       = foldl (\<lambda>s j. saveBatch db data (50 * j) s) st [k ..< batchCount data]"
proof (induction "batchCount data - k" arbitrary: k st)
  case 0
  then have "k = batchCount data" by simp
  then have "\<not> 50 * k < length data" by (simp add: batch_index)
  then show ?case using \<open>k = batchCount data\<close> by (subst saveLoop.simps) simp
next
  case (Suc m)
  then have lt: "k < batchCount data" by simp
  then have i: "50 * k < length data" by (simp add: batch_index)
  have "saveLoop db data (50 * k) st = saveLoop db data (50 * Suc k) (saveBatch db data (50 * k) st)"
    using i by (subst saveLoop.simps) (simp add: add.commute)
  also have "\<dots> = foldl (\<lambda>s j. saveBatch db data (50 * j) s) (saveBatch db data (50 * k) st)
                      [Suc k ..< batchCount data]"
    using Suc(1) [of "Suc k"] Suc(2) lt by simp
  finally show ?case using lt by (simp add: upt_conv_Cons)
qed

lemma concat_batches_take:
  "concat (map (batchAt data) [0 ..< m]) = take (50 * m) data"
proof (induction m)
  case 0
  then show ?case by simp
next
  case (Suc m)
  have "take (50 * m) data @ take 50 (drop (50 * m) data) = take (50 * m + 50) data"
    by (simp add: take_add)
  then show ?case using Suc by (simp add: batchAt_def add.commute)
qed

lemma concat_batches: "concat (map (batchAt data) [0 ..< batchCount data]) = data"
proof -
  have "length data \<le> 50 * batchCount data" by (simp add: batchCount_def)
  then show ?thesis by (simp add: concat_batches_take)
qed

lemma batch_length:
  assumes "k < batchCount data"
  shows "0 < length (batchAt data k)" "length (batchAt data k) \<le> 50"
    "Suc k < batchCount data \<Longrightarrow> length (batchAt data k) = 50"
proof -
  have "50 * k < length data" using assms by (simp add: batch_index)
  then show "0 < length (batchAt data k)" by (simp add: batchAt_def)
  show "length (batchAt data k) \<le> 50" by (simp add: batchAt_def)
  assume "Suc k < batchCount data"
  then have "50 * Suc k < length data" by (simp only: batch_index)
  then show "length (batchAt data k) = 50" by (simp add: batchAt_def)
qed

lemma fold_count:
  "m \<le> batchCount data \<Longrightarrow>
   savedCount (foldl (\<lambda>s j. saveBatch db data (50 * j) s) st [0 ..< m])
     + length (problematicRecords (saveLog (foldl (\<lambda>s j. saveBatch db data (50 * j) s) st [0 ..< m])))
     = savedCount st + length (problematicRecords (saveLog st)) + length (take (50 * m) data)"
proof (induction m)
  case 0
  then show ?case by simp
next
  case (Suc m)
  then have "50 * m < length data" by (simp add: batch_index)
  then have "min (length data) (50 * m) + min 50 (length data - 50 * m) = min (length data) (50 + 50 * m)"
    by simp
  then show ?case using Suc by (simp add: saveBatch_count)
qed

lemma fold_failed:
  "set (problematicRecords (saveLog (foldl (\<lambda>s j. saveBatch db data (50 * j) s) st [0 ..< m])))
     \<subseteq> set (problematicRecords (saveLog st)) \<union> set (map processRecord data)"
proof (induction m)
  case 0
  then show ?case by simp
next
  case (Suc m)
  then show ?case
    using saveBatch_failed [of db data "50 * m" "foldl (\<lambda>s j. saveBatch db data (50 * j) s) st [0 ..< m]"]
    by auto
qed


text \<open>
  Claim C4. The persister partitions its input into consecutive batches of 50 (the last
  one may be shorter) and runs every batch in order, whatever happened to the batches
  before it. When the bulk insert of a batch is rejected, the records of that batch are
  attempted one by one: a rejected record is logged together with its content and the
  remaining records are still attempted, an accepted record adds one to the saved
  count. At the end every input record is either counted as saved or logged as
  failed, the failed records are records of the input, and the last log line reports
  the saved count against the number of records. The persister is a total function of
  the store's answers: no rejection propagates.
\<close>

theorem saveDataToDatabase_fallback:
  assumes "data \<noteq> []"
  shows "concat (map (batchAt data) [0 ..< batchCount data]) = data
    \<and> (k < batchCount data \<longrightarrow>
          0 < length (batchAt data k) \<and> length (batchAt data k) \<le> 50
          \<and> (Suc k < batchCount data \<longrightarrow> length (batchAt data k) = 50))
    \<and> saveDataToDatabase db s0 data =
         (let st = foldl (\<lambda>s j. saveBatch db data (50 * j) s)
                     \<lparr>savedCount = 0, saveLog = [SaveStarting (length data)], store = s0\<rparr>
                     [0 ..< batchCount data]
          in st\<lparr>saveLog := saveLog st @ [SaveComplete (savedCount st) (length data)]\<rparr>)
    \<and> (createMany db (store st) (map processRecord (batchAt data k)) = (Some e, s1) \<longrightarrow>
          saveBatch db data (50 * k) st =
            saveIndividually db (map processRecord (batchAt data k))
              (st\<lparr>saveLog := saveLog st
                               @ [SavingBatch (k + 1) (batchCount data) (length (batchAt data k)),
                                  BatchError (k + 1) e, AttemptingIndividually],
                  store := s1\<rparr>))
    \<and> (createMany db (store st) (map processRecord (batchAt data k)) = (None, s1) \<longrightarrow>
          saveBatch db data (50 * k) st =
            st\<lparr>savedCount := savedCount st + length (batchAt data k),
               saveLog := saveLog st @ [SavingBatch (k + 1) (batchCount data) (length (batchAt data k))],
               store := s1\<rparr>)
    \<and> (createOne db (store st) r = (Some e, s1) \<longrightarrow>
          saveIndividually db (r # rs) st =
            saveIndividually db rs
              (st\<lparr>saveLog := saveLog st @ [IndividualFailure e, ProblematicRecord r], store := s1\<rparr>))
    \<and> (createOne db (store st) r = (None, s1) \<longrightarrow>
          saveIndividually db (r # rs) st =
            saveIndividually db rs (st\<lparr>savedCount := savedCount st + 1, store := s1\<rparr>))
    \<and> savedCount (saveDataToDatabase db s0 data)
        + length (problematicRecords (saveLog (saveDataToDatabase db s0 data))) = length data
    \<and> set (problematicRecords (saveLog (saveDataToDatabase db s0 data)))
        \<subseteq> set (map processRecord data)
    \<and> last (saveLog (saveDataToDatabase db s0 data))
        = SaveComplete (savedCount (saveDataToDatabase db s0 data)) (length data)"
proof -
  let ?st0 = "\<lparr>savedCount = 0, saveLog = [SaveStarting (length data)], store = s0\<rparr>"
  let ?f = "foldl (\<lambda>s j. saveBatch db data (50 * j) s) ?st0 [0 ..< batchCount data]"
  have loop: "saveLoop db data 0 ?st0 = ?f"
    using saveLoop_fold [of 0 data db ?st0] by simp
  have run: "saveDataToDatabase db s0 data
               = ?f\<lparr>saveLog := saveLog ?f @ [SaveComplete (savedCount ?f) (length data)]\<rparr>"
    using assms by (simp add: saveDataToDatabase_def Let_def loop)
  have all: "length (take (50 * batchCount data) data) = length data"
    by (simp add: batchCount_def)
  have cnt: "savedCount ?f + length (problematicRecords (saveLog ?f)) = length data"
    using fold_count [of "batchCount data" data db ?st0] all by simp
  have sub: "set (problematicRecords (saveLog ?f)) \<subseteq> set (map processRecord data)"
    using fold_failed [of db data ?st0 "batchCount data"] by simp
  have p1: "savedCount (saveDataToDatabase db s0 data)
        + length (problematicRecords (saveLog (saveDataToDatabase db s0 data))) = length data"
    unfolding run using cnt by (simp add: problematicRecords_append)
  have p2: "set (problematicRecords (saveLog (saveDataToDatabase db s0 data)))
        \<subseteq> set (map processRecord data)"
    unfolding run using sub by (simp add: problematicRecords_append)
  have p3: "last (saveLog (saveDataToDatabase db s0 data))
        = SaveComplete (savedCount (saveDataToDatabase db s0 data)) (length data)"
    unfolding run by simp
  have p4: "saveDataToDatabase db s0 data =
         (let st = ?f in st\<lparr>saveLog := saveLog st @ [SaveComplete (savedCount st) (length data)]\<rparr>)"
    unfolding run by (simp add: Let_def)
  have bulk_fail: "saveBatch db data (50 * k) st =
            saveIndividually db (map processRecord (batchAt data k))
              (st\<lparr>saveLog := saveLog st
                               @ [SavingBatch (k + 1) (batchCount data) (length (batchAt data k)),
                                  BatchError (k + 1) e, AttemptingIndividually],
                  store := s1\<rparr>)"
    if "createMany db (store st) (map processRecord (batchAt data k)) = (Some e, s1)"
    using that by (simp add: saveBatch_def batchAt_def batchCount_def Let_def)
  have bulk_ok: "saveBatch db data (50 * k) st =
            st\<lparr>savedCount := savedCount st + length (batchAt data k),
               saveLog := saveLog st @ [SavingBatch (k + 1) (batchCount data) (length (batchAt data k))],
               store := s1\<rparr>"
    if "createMany db (store st) (map processRecord (batchAt data k)) = (None, s1)"
    using that by (simp add: saveBatch_def batchAt_def batchCount_def Let_def)
  have one_fail: "saveIndividually db (r # rs) st =
            saveIndividually db rs
              (st\<lparr>saveLog := saveLog st @ [IndividualFailure e, ProblematicRecord r], store := s1\<rparr>)"
    if "createOne db (store st) r = (Some e, s1)"
    using that by simp
  have one_ok: "saveIndividually db (r # rs) st =
            saveIndividually db rs (st\<lparr>savedCount := savedCount st + 1, store := s1\<rparr>)"
    if "createOne db (store st) r = (None, s1)"
    using that by simp
  show ?thesis
    using concat_batches [of data] batch_length [of k data] p4 bulk_fail bulk_ok one_fail one_ok
      p1 p2 p3
    by blast
qed


theorem saveDataToDatabase_fallback_witness:
  "exampleData \<noteq> []
   \<and> Suc 0 < batchCount exampleData \<and> length (batchAt exampleData 0) = 50
   \<and> length (batchAt exampleData 1) = 2
   \<and> concat (map (batchAt exampleData) [0 ..< batchCount exampleData]) = exampleData
   \<and> createMany exampleStore [] (map processRecord (batchAt exampleData 0))
       = (None, replicate 50 goodRecord)
   \<and> createMany exampleStore (replicate 50 goodRecord) (map processRecord (batchAt exampleData 1))
       = (Some ''batch rejected'', replicate 50 goodRecord)
   \<and> createOne exampleStore (replicate 50 goodRecord) badRecord
       = (Some ''record rejected'', replicate 50 goodRecord)
   \<and> createOne exampleStore (replicate 50 goodRecord) goodRecord
       = (None, replicate 50 goodRecord @ [goodRecord])
   \<and> savedCount (saveDataToDatabase exampleStore [] exampleData) = 51
   \<and> problematicRecords (saveLog (saveDataToDatabase exampleStore [] exampleData)) = [badRecord]
   \<and> savedCount (saveDataToDatabase exampleStore [] exampleData)
       + length (problematicRecords (saveLog (saveDataToDatabase exampleStore [] exampleData)))
       = length exampleData
   \<and> last (saveLog (saveDataToDatabase exampleStore [] exampleData)) = SaveComplete 51 52"
proof -
  have ne: "exampleData \<noteq> []" by (simp add: exampleData_def)
  have len: "length exampleData = 52" by (simp add: exampleData_def)
  have bc: "batchCount exampleData = 2" by (simp add: batchCount_def len)
  have b0: "batchAt exampleData 0 = replicate 50 goodRecord"
    by (simp add: batchAt_def exampleData_def)
  have b1: "batchAt exampleData 1 = [badRecord, goodRecord]"
    by (simp add: batchAt_def exampleData_def)
  have b1': "batchAt exampleData (Suc 0) = [badRecord, goodRecord]"
    using b1 by simp
  have pg: "processRecord goodRecord = goodRecord" by code_simp
  have pb: "processRecord badRecord = badRecord" by code_simp
  have rg: "\<not> rejected goodRecord" by code_simp
  have rb: "rejected badRecord" by code_simp
  have m0: "createMany exampleStore [] (map processRecord (batchAt exampleData 0))
       = (None, replicate 50 goodRecord)"
    by (simp add: b0 pg exampleStore_def rg list_ex_iff)
  have m1: "createMany exampleStore (replicate 50 goodRecord) (map processRecord (batchAt exampleData 1))
       = (Some ''batch rejected'', replicate 50 goodRecord)"
    by (simp add: b1' pg pb exampleStore_def rb)
  have o1: "createOne exampleStore (replicate 50 goodRecord) badRecord
       = (Some ''record rejected'', replicate 50 goodRecord)"
    by (simp add: exampleStore_def rb)
  have o2: "createOne exampleStore (replicate 50 goodRecord) goodRecord
       = (None, replicate 50 goodRecord @ [goodRecord])"
    by (simp add: exampleStore_def rg)
  note inst = saveDataToDatabase_fallback [OF ne, where db = exampleStore and ?s0.0 = "[]"]
  let ?st0 = "\<lparr>savedCount = 0, saveLog = [SaveStarting (length exampleData)], store = ([] :: js_object list)\<rparr>"
  have s1: "saveBatch exampleStore exampleData (50 * 0) ?st0
              = ?st0\<lparr>savedCount := savedCount ?st0 + length (batchAt exampleData 0),
                     saveLog := saveLog ?st0 @ [SavingBatch (0 + 1) (batchCount exampleData) (length (batchAt exampleData 0))],
                     store := replicate 50 goodRecord\<rparr>"
    using inst [where k = 0 and st = ?st0 and ?s1.0 = "replicate 50 goodRecord"] m0 by simp
  let ?st1 = "\<lparr>savedCount = 50, saveLog = [SaveStarting 52, SavingBatch 1 2 50], store = replicate 50 goodRecord\<rparr>"
  have s1': "saveBatch exampleStore exampleData 0 ?st0 = ?st1"
    using s1 by (simp add: len bc b0)
  let ?st2 = "?st1\<lparr>saveLog := saveLog ?st1 @ [SavingBatch (1 + 1) (batchCount exampleData) (length (batchAt exampleData 1)),
                                  BatchError (1 + 1) ''batch rejected'', AttemptingIndividually],
                  store := replicate 50 goodRecord\<rparr>"
  have s2: "saveBatch exampleStore exampleData (50 * 1) ?st1
              = saveIndividually exampleStore (map processRecord (batchAt exampleData 1)) ?st2"
    using inst [where k = 1 and st = ?st1 and e = "''batch rejected''" and ?s1.0 = "replicate 50 goodRecord"] m1
    by simp
  have s3: "saveIndividually exampleStore [badRecord, goodRecord] ?st2
              = ?st2\<lparr>savedCount := 51,
                     saveLog := saveLog ?st2 @ [IndividualFailure ''record rejected'', ProblematicRecord badRecord],
                     store := replicate 50 goodRecord @ [goodRecord]\<rparr>"
    using o1 o2 by simp
  have run: "saveDataToDatabase exampleStore [] exampleData
               = (let st = foldl (\<lambda>s j. saveBatch exampleStore exampleData (50 * j) s) ?st0 [0 ..< batchCount exampleData]
                  in st\<lparr>saveLog := saveLog st @ [SaveComplete (savedCount st) (length exampleData)]\<rparr>)"
    using inst by blast
  have f: "foldl (\<lambda>s j. saveBatch exampleStore exampleData (50 * j) s) ?st0 [0 ..< batchCount exampleData]
             = ?st2\<lparr>savedCount := 51,
                     saveLog := saveLog ?st2 @ [IndividualFailure ''record rejected'', ProblematicRecord badRecord],
                     store := replicate 50 goodRecord @ [goodRecord]\<rparr>"
    using s1' s2 s3 by (simp add: bc upt_rec b1 b1' pg pb)
  have r1: "savedCount (saveDataToDatabase exampleStore [] exampleData) = 51"
    unfolding run f by (simp add: Let_def)
  have r2: "problematicRecords (saveLog (saveDataToDatabase exampleStore [] exampleData)) = [badRecord]"
    unfolding run f by (simp add: Let_def)
  have r3: "last (saveLog (saveDataToDatabase exampleStore [] exampleData)) = SaveComplete 51 52"
    unfolding run f by (simp add: Let_def len)
  have r4: "concat (map (batchAt exampleData) [0 ..< batchCount exampleData]) = exampleData"
    using inst by blast
  show ?thesis
    using ne bc b0 b1 b1' m0 m1 o1 o2 r1 r2 r3 r4 len by simp
qed

section \<open>Aggregation engine\<close>


lemma getProp_spread:
  "k \<notin> fst ` set src \<Longrightarrow> getProp (spread obj src) k = getProp obj k"
  unfolding spread_def
  by (induction src arbitrary: obj) (auto simp: getProp_update)

lemma results_step:
  "results (levelOfCareMetrics db filters st loc) = results st @ [bucketSummary db filters loc]"
  by (auto simp: levelOfCareMetrics_def bucketSummary_def Let_def split: sum.splits prod.splits option.splits)

lemma results_fold:
  "results (foldl (levelOfCareMetrics db filters) st locs)
     = results st @ map (bucketSummary db filters) locs"
  by (induction locs arbitrary: st) (simp_all add: results_step)

lemma results_calculateMetrics:
  "results (calculateMetrics db s0 filters) = map (bucketSummary db filters) levelsOfCare"
  by (simp add: calculateMetrics_def results_fold)

lemma summaryKeys_free:
  assumes "list_all (\<lambda>k. k \<notin> fst ` set filters) summaryKeys"
  shows "''levelOfCare'' \<notin> fst ` set filters" "''recordCount'' \<notin> fst ` set filters"
    "''averageAllowedAmount'' \<notin> fst ` set filters" "''minAllowedAmount'' \<notin> fst ` set filters"
    "''maxAllowedAmount'' \<notin> fst ` set filters" "''medianAllowedAmount'' \<notin> fst ` set filters"
    "''modeAllowedAmount'' \<notin> fst ` set filters"
  using assms by (simp_all add: summaryKeys_def)

lemma zeroSummary_fields:
  assumes "list_all (\<lambda>k. k \<notin> fst ` set filters) summaryKeys"
  shows "getProp (zeroSummary loc n filters) ''levelOfCare'' = JStr loc"
    "getProp (zeroSummary loc n filters) ''recordCount'' = JNum (Num (of_nat n))"
    "zeroStatistics (zeroSummary loc n filters)"
  using summaryKeys_free [OF assms]
  by (simp_all add: zeroSummary_def zeroStatistics_def getProp_spread numberValue_def)
     (simp_all add: getProp_def)

lemma computedSummary_level:
  assumes "list_all (\<lambda>k. k \<notin> fst ` set filters) summaryKeys"
  shows "getProp (computedSummary loc n xs filters) ''levelOfCare'' = JStr loc"
    "getProp (computedSummary loc n xs filters) ''recordCount'' = JNum (Num (of_nat n))"
    "getProp (computedSummary loc n xs filters) ''medianAllowedAmount'' = JNum (Num (median xs))"
    "getProp (computedSummary loc n xs filters) ''modeAllowedAmount'' = JNum (Num (mode xs))"
  using summaryKeys_free [OF assms]
  by (simp_all add: computedSummary_def getProp_spread numberValue_def)
     (simp_all add: getProp_def)

lemma bucketSummary_level:
  assumes "list_all (\<lambda>k. k \<notin> fst ` set filters) summaryKeys"
  shows "getProp (bucketSummary db filters loc) ''levelOfCare'' = JStr loc"
  by (auto simp: bucketSummary_def Let_def zeroSummary_fields [OF assms] computedSummary_level [OF assms]
      split: sum.splits)

lemma bucketSummary_zero:
  assumes "list_all (\<lambda>k. k \<notin> fst ` set filters) summaryKeys"
    and "countRecords db (spread [(''levelOfCare'', JStr loc)] filters) = Inr 0
         \<or> countRecords db (spread [(''levelOfCare'', JStr loc)] filters) = Inl e"
  shows "getProp (bucketSummary db filters loc) ''recordCount'' = JNum (Num 0)
         \<and> zeroStatistics (bucketSummary db filters loc)"
  using assms(2) zeroSummary_fields [OF assms(1), of loc 0]
  by (auto simp: bucketSummary_def Let_def)

lemma bucketSummary_failed:
  assumes "list_all (\<lambda>k. k \<notin> fst ` set filters) summaryKeys"
    and "countRecords db (spread [(''levelOfCare'', JStr loc)] filters) = Inr n"
    and "findAllowedAmounts db (spread [(''levelOfCare'', JStr loc)] filters) = Inl e"
  shows "getProp (bucketSummary db filters loc) ''recordCount'' = JNum (Num (of_nat n))
         \<and> zeroStatistics (bucketSummary db filters loc)"
  using assms(2,3) zeroSummary_fields [OF assms(1), of loc n] zeroSummary_fields [OF assms(1), of loc 0]
  by (auto simp: bucketSummary_def Let_def)

lemma bucketSummary_computed:
  assumes "countRecords db (spread [(''levelOfCare'', JStr loc)] filters) = Inr n" "0 < n"
    and "findAllowedAmounts db (spread [(''levelOfCare'', JStr loc)] filters) = Inr amounts"
    and "length (validAmountsOf amounts) \<le> argumentLimit db"
  shows "bucketSummary db filters loc = computedSummary loc n (validAmountsOf amounts) filters"
  using assms by (simp add: bucketSummary_def Let_def)

lemma bucketSummary_overflow:
  assumes "list_all (\<lambda>k. k \<notin> fst ` set filters) summaryKeys"
    and "countRecords db (spread [(''levelOfCare'', JStr loc)] filters) = Inr n"
    and "findAllowedAmounts db (spread [(''levelOfCare'', JStr loc)] filters) = Inr amounts"
    and "argumentLimit db < length (validAmountsOf amounts)"
  shows "getProp (bucketSummary db filters loc) ''recordCount'' = JNum (Num (of_nat n))
         \<and> zeroStatistics (bucketSummary db filters loc)"
  using assms(2,3,4) zeroSummary_fields [OF assms(1), of loc n] zeroSummary_fields [OF assms(1), of loc 0]
  by (auto simp: bucketSummary_def Let_def)

text \<open>
  Claim C3, as amended. For every filter set the engine returns exactly five
  summaries, one per turn of the loop over DETOX, RES, PHP, IOP, OTHER, whatever the
  stores answer, and the summary of a turn is a function of the record store's answers
  for that turn alone: neither the summary store, nor a rejected upsert, nor another
  bucket changes it. When no key of the filter set is a key of the summary itself
  (levelOfCare, recordCount and the five statistics, which the trailing spread of the
  filters would overwrite), the five summaries are those of the buckets DETOX, RES,
  PHP, IOP, OTHER in that order; a bucket whose count is zero, or whose count is
  rejected, gets recordCount 0 and the five statistics 0; a bucket whose records
  cannot be fetched, or whose amounts are too many for the argument spread of the
  minimum, gets the five statistics 0 next to the count that was obtained. The engine
  is a total function of the stores' answers: no failure propagates.
\<close>

theorem calculateMetrics_one_summary_per_bucket:
  "results (calculateMetrics db s0 filters) = map (bucketSummary db filters) levelsOfCare
   \<and> length (results (calculateMetrics db s0 filters)) = 5
   \<and> (list_all (\<lambda>k. k \<notin> fst ` set filters) summaryKeys \<longrightarrow>
        map (\<lambda>s. getProp s ''levelOfCare'') (results (calculateMetrics db s0 filters))
          = [JStr ''DETOX'', JStr ''RES'', JStr ''PHP'', JStr ''IOP'', JStr ''OTHER''])
   \<and> (list_all (\<lambda>k. k \<notin> fst ` set filters) summaryKeys \<and> i < 5
        \<and> (countRecords db (spread [(''levelOfCare'', JStr (levelsOfCare ! i))] filters) = Inr 0
             \<or> countRecords db (spread [(''levelOfCare'', JStr (levelsOfCare ! i))] filters) = Inl e)
        \<longrightarrow> getProp (results (calculateMetrics db s0 filters) ! i) ''recordCount'' = JNum (Num 0)
             \<and> zeroStatistics (results (calculateMetrics db s0 filters) ! i))
   \<and> (list_all (\<lambda>k. k \<notin> fst ` set filters) summaryKeys \<and> i < 5
        \<and> countRecords db (spread [(''levelOfCare'', JStr (levelsOfCare ! i))] filters) = Inr n
        \<and> findAllowedAmounts db (spread [(''levelOfCare'', JStr (levelsOfCare ! i))] filters) = Inl e
        \<longrightarrow> getProp (results (calculateMetrics db s0 filters) ! i) ''recordCount'' = JNum (Num (of_nat n))
             \<and> zeroStatistics (results (calculateMetrics db s0 filters) ! i))
   \<and> (list_all (\<lambda>k. k \<notin> fst ` set filters) summaryKeys \<and> i < 5
        \<and> countRecords db (spread [(''levelOfCare'', JStr (levelsOfCare ! i))] filters) = Inr n
        \<and> findAllowedAmounts db (spread [(''levelOfCare'', JStr (levelsOfCare ! i))] filters) = Inr amounts
        \<and> argumentLimit db < length (validAmountsOf amounts)
        \<longrightarrow> getProp (results (calculateMetrics db s0 filters) ! i) ''recordCount'' = JNum (Num (of_nat n))
             \<and> zeroStatistics (results (calculateMetrics db s0 filters) ! i))"
proof -
  let ?r = "results (calculateMetrics db s0 filters)"
  let ?free = "list_all (\<lambda>k. k \<notin> fst ` set filters) summaryKeys"
  have r: "?r = map (bucketSummary db filters) levelsOfCare"
    by (rule results_calculateMetrics)
  have len: "length ?r = 5"
    unfolding r by (simp add: levelsOfCare_def)
  have lv: "map (\<lambda>s. getProp s ''levelOfCare'') ?r
              = [JStr ''DETOX'', JStr ''RES'', JStr ''PHP'', JStr ''IOP'', JStr ''OTHER'']"
    if ?free
    unfolding r by (simp add: levelsOfCare_def bucketSummary_level [OF that])
  have five: "length levelsOfCare = 5"
    by (simp add: levelsOfCare_def)
  have nth: "?r ! i = bucketSummary db filters (levelsOfCare ! i)" if "i < 5"
    unfolding r using that five by (intro nth_map) simp
  have z: "getProp (?r ! i) ''recordCount'' = JNum (Num 0) \<and> zeroStatistics (?r ! i)"
    if ?free "i < 5"
      "countRecords db (spread [(''levelOfCare'', JStr (levelsOfCare ! i))] filters) = Inr 0
       \<or> countRecords db (spread [(''levelOfCare'', JStr (levelsOfCare ! i))] filters) = Inl e"
    unfolding nth [OF that(2)] by (rule bucketSummary_zero [OF that(1,3)])
  have f: "getProp (?r ! i) ''recordCount'' = JNum (Num (of_nat n)) \<and> zeroStatistics (?r ! i)"
    if ?free "i < 5"
      "countRecords db (spread [(''levelOfCare'', JStr (levelsOfCare ! i))] filters) = Inr n"
      "findAllowedAmounts db (spread [(''levelOfCare'', JStr (levelsOfCare ! i))] filters) = Inl e"
    unfolding nth [OF that(2)] by (rule bucketSummary_failed [OF that(1,3,4)])
  have o: "getProp (?r ! i) ''recordCount'' = JNum (Num (of_nat n)) \<and> zeroStatistics (?r ! i)"
    if ?free "i < 5"
      "countRecords db (spread [(''levelOfCare'', JStr (levelsOfCare ! i))] filters) = Inr n"
      "findAllowedAmounts db (spread [(''levelOfCare'', JStr (levelsOfCare ! i))] filters) = Inr amounts"
      "argumentLimit db < length (validAmountsOf amounts)"
    unfolding nth [OF that(2)] by (rule bucketSummary_overflow [OF that(1,3,4,5)])
  show ?thesis using r len lv z f o by blast
qed

theorem calculateMetrics_one_summary_per_bucket_witness:
  "list_all (\<lambda>k. k \<notin> fst ` set [(''payerName'', JStr ''Aetna'')]) summaryKeys
   \<and> length (results (calculateMetrics exampleMetricsDb [] [(''payerName'', JStr ''Aetna'')])) = 5
   \<and> map (\<lambda>s. getProp s ''levelOfCare'')
         (results (calculateMetrics exampleMetricsDb [] [(''payerName'', JStr ''Aetna'')]))
       = [JStr ''DETOX'', JStr ''RES'', JStr ''PHP'', JStr ''IOP'', JStr ''OTHER'']
   \<and> countRecords exampleMetricsDb
        (spread [(''levelOfCare'', JStr (levelsOfCare ! 0))] [(''payerName'', JStr ''Aetna'')])
       = Inl ''count failed''
   \<and> getProp (results (calculateMetrics exampleMetricsDb [] [(''payerName'', JStr ''Aetna'')]) ! 0)
        ''recordCount'' = JNum (Num 0)
   \<and> zeroStatistics (results (calculateMetrics exampleMetricsDb [] [(''payerName'', JStr ''Aetna'')]) ! 0)
   \<and> countRecords exampleMetricsDb
        (spread [(''levelOfCare'', JStr (levelsOfCare ! 1))] [(''payerName'', JStr ''Aetna'')])
       = Inr 0
   \<and> zeroStatistics (results (calculateMetrics exampleMetricsDb [] [(''payerName'', JStr ''Aetna'')]) ! 1)
   \<and> countRecords exampleMetricsDb
        (spread [(''levelOfCare'', JStr (levelsOfCare ! 2))] [(''payerName'', JStr ''Aetna'')])
       = Inr 2
   \<and> findAllowedAmounts exampleMetricsDb
        (spread [(''levelOfCare'', JStr (levelsOfCare ! 2))] [(''payerName'', JStr ''Aetna'')])
       = Inl ''query failed''
   \<and> getProp (results (calculateMetrics exampleMetricsDb [] [(''payerName'', JStr ''Aetna'')]) ! 2)
        ''recordCount'' = JNum (Num 2)
   \<and> zeroStatistics (results (calculateMetrics exampleMetricsDb [] [(''payerName'', JStr ''Aetna'')]) ! 2)
   \<and> getProp (results (calculateMetrics exampleMetricsDb [] [(''payerName'', JStr ''Aetna'')]) ! 3)
        ''medianAllowedAmount'' = JNum (Num 20)
   \<and> countRecords smallCallDb
        (spread [(''levelOfCare'', JStr (levelsOfCare ! 3))] [(''payerName'', JStr ''Aetna'')])
       = Inr 5
   \<and> findAllowedAmounts smallCallDb
        (spread [(''levelOfCare'', JStr (levelsOfCare ! 3))] [(''payerName'', JStr ''Aetna'')])
       = Inr [Some 10, None, Some 20, Some 20, Some 30]
   \<and> argumentLimit smallCallDb < length (validAmountsOf [Some 10, None, Some 20, Some 20, Some 30])
   \<and> getProp (results (calculateMetrics smallCallDb [] [(''payerName'', JStr ''Aetna'')]) ! 3)
        ''recordCount'' = JNum (Num 5)
   \<and> zeroStatistics (results (calculateMetrics smallCallDb [] [(''payerName'', JStr ''Aetna'')]) ! 3)
   \<and> summaries (calculateMetrics smallCallDb [] [(''payerName'', JStr ''Aetna'')]) = []"
proof -
  let ?f = "[(''payerName'', JStr ''Aetna'')]"
  have h: "list_all (\<lambda>k. k \<notin> fst ` set ?f) summaryKeys"
    by (simp add: summaryKeys_def)
  have c0: "countRecords exampleMetricsDb (spread [(''levelOfCare'', JStr (levelsOfCare ! 0))] ?f)
              = Inl ''count failed''"
    by code_simp
  have c1: "countRecords exampleMetricsDb (spread [(''levelOfCare'', JStr (levelsOfCare ! 1))] ?f) = Inr 0"
    by code_simp
  have c2: "countRecords exampleMetricsDb (spread [(''levelOfCare'', JStr (levelsOfCare ! 2))] ?f) = Inr 2"
    by code_simp
  have f2: "findAllowedAmounts exampleMetricsDb (spread [(''levelOfCare'', JStr (levelsOfCare ! 2))] ?f)
              = Inl ''query failed''"
    by code_simp
  have c3: "countRecords smallCallDb (spread [(''levelOfCare'', JStr (levelsOfCare ! 3))] ?f) = Inr 5"
    by code_simp
  have f3: "findAllowedAmounts smallCallDb (spread [(''levelOfCare'', JStr (levelsOfCare ! 3))] ?f)
              = Inr [Some 10, None, Some 20, Some 20, Some 30]"
    by code_simp
  have l3: "argumentLimit smallCallDb < length (validAmountsOf [Some 10, None, Some 20, Some 20, Some 30])"
    by code_simp
  have u3: "summaries (calculateMetrics smallCallDb [] ?f) = []"
    by code_simp
  have m: "getProp (bucketSummary exampleMetricsDb ?f ''IOP'') ''medianAllowedAmount'' = JNum (Num 20)"
    by code_simp
  note inst = calculateMetrics_one_summary_per_bucket [where db = exampleMetricsDb and ?s0.0 = "[]"
      and filters = ?f]
  note small = calculateMetrics_one_summary_per_bucket [where db = smallCallDb and ?s0.0 = "[]"
      and filters = ?f]
  have lt: "(0::nat) < 5" "(1::nat) < 5" "(2::nat) < 5" "(3::nat) < 5" by simp_all
  have r: "results (calculateMetrics exampleMetricsDb [] ?f) = map (bucketSummary exampleMetricsDb ?f) levelsOfCare"
    using inst by blast
  have m3: "getProp (results (calculateMetrics exampleMetricsDb [] ?f) ! 3) ''medianAllowedAmount'' = JNum (Num 20)"
    unfolding r using m by (simp add: levelsOfCare_def)
  have l: "length (results (calculateMetrics exampleMetricsDb [] ?f)) = 5"
    using inst by blast
  have lv: "map (\<lambda>s. getProp s ''levelOfCare'') (results (calculateMetrics exampleMetricsDb [] ?f))
              = [JStr ''DETOX'', JStr ''RES'', JStr ''PHP'', JStr ''IOP'', JStr ''OTHER'']"
    using inst h by blast
  have z0: "getProp (results (calculateMetrics exampleMetricsDb [] ?f) ! 0) ''recordCount'' = JNum (Num 0)
            \<and> zeroStatistics (results (calculateMetrics exampleMetricsDb [] ?f) ! 0)"
    using inst [where i = 0 and e = "''count failed''"] c0 lt h by blast
  have z1: "zeroStatistics (results (calculateMetrics exampleMetricsDb [] ?f) ! 1)"
    using inst [where i = 1] c1 lt h by blast
  have "getProp (results (calculateMetrics exampleMetricsDb [] ?f) ! 2) ''recordCount'' = JNum (Num (of_nat 2))
            \<and> zeroStatistics (results (calculateMetrics exampleMetricsDb [] ?f) ! 2)"
    using inst [where i = 2 and n = 2 and e = "''query failed''"] c2 f2 lt h by blast
  then have z2: "getProp (results (calculateMetrics exampleMetricsDb [] ?f) ! 2) ''recordCount'' = JNum (Num 2)
            \<and> zeroStatistics (results (calculateMetrics exampleMetricsDb [] ?f) ! 2)"
    by simp
  have "getProp (results (calculateMetrics smallCallDb [] ?f) ! 3) ''recordCount'' = JNum (Num (of_nat 5))
            \<and> zeroStatistics (results (calculateMetrics smallCallDb [] ?f) ! 3)"
    using small [where i = 3 and n = 5 and amounts = "[Some 10, None, Some 20, Some 20, Some 30]"]
      c3 f3 l3 lt h by blast
  then have z3: "getProp (results (calculateMetrics smallCallDb [] ?f) ! 3) ''recordCount'' = JNum (Num 5)
            \<and> zeroStatistics (results (calculateMetrics smallCallDb [] ?f) ! 3)"
    by simp
  show ?thesis
    using h l lv c0 c1 c2 f2 c3 f3 l3 u3 z0 z1 z2 z3 m3 by blast
qed

theorem calculateMetrics_filter_overrides_bucket_counterexample:
  "map (\<lambda>s. getProp s ''levelOfCare'')
      (results (calculateMetrics exampleMetricsDb [] [(''levelOfCare'', JStr ''IOP'')]))
     = [JStr ''IOP'', JStr ''IOP'', JStr ''IOP'', JStr ''IOP'', JStr ''IOP'']
   \<and> map (\<lambda>s. getProp s ''levelOfCare'')
        (results (calculateMetrics exampleMetricsDb [] [(''levelOfCare'', JStr ''IOP'')]))
      \<noteq> [JStr ''DETOX'', JStr ''RES'', JStr ''PHP'', JStr ''IOP'', JStr ''OTHER'']
   \<and> countRecords exampleMetricsDb [(''levelOfCare'', JStr ''RES''), (''recordCount'', JNum (Num 7))] = Inr 0
   \<and> getProp (results (calculateMetrics exampleMetricsDb [] [(''recordCount'', JNum (Num 7))]) ! 1)
        ''recordCount'' = JNum (Num 7)"
proof -
  have a: "map (\<lambda>s. getProp s ''levelOfCare'')
      (results (calculateMetrics exampleMetricsDb [] [(''levelOfCare'', JStr ''IOP'')]))
     = [JStr ''IOP'', JStr ''IOP'', JStr ''IOP'', JStr ''IOP'', JStr ''IOP'']"
    by code_simp
  have b: "countRecords exampleMetricsDb [(''levelOfCare'', JStr ''RES''), (''recordCount'', JNum (Num 7))] = Inr 0"
    by code_simp
  have c: "getProp (results (calculateMetrics exampleMetricsDb [] [(''recordCount'', JNum (Num 7))]) ! 1)
        ''recordCount'' = JNum (Num 7)"
    by code_simp
  show ?thesis unfolding a using b c by simp
qed

text \<open>
  Claim C6 at a concrete input: the engine run twice with no filter on a record store
  whose IOP bucket has records. The unique key handed to the upsert carries the
  sentinels (empty text, 0) for the missing filter dimensions, but the row the first run
  creates has no value in those columns, so the second run's key does not find it and a
  second IOP row is added.
\<close>

theorem recomputation_adds_summary_row:
  "metricsKey ''IOP'' []
     = [(''levelOfCare'', JStr ''IOP''), (''stateTreatedAt'', JStr []), (''payerName'', JStr []),
        (''payerClass'', JStr []), (''serviceYear'', JNum (Num 0)),
        (''paymentReceivedYear'', JNum (Num 0))]
   \<and> summaries (calculateMetrics exampleMetricsDb [] [])
       = [computedSummary ''IOP'' 5 [10, 20, 20, 30] []]
   \<and> getProp (computedSummary ''IOP'' 5 [10, 20, 20, 30] []) ''stateTreatedAt'' = JUndefined
   \<and> summaries (calculateMetrics exampleMetricsDb (summaries (calculateMetrics exampleMetricsDb [] [])) [])
       = [computedSummary ''IOP'' 5 [10, 20, 20, 30] [], computedSummary ''IOP'' 5 [10, 20, 20, 30] []]"
proof -
  have a: "metricsKey ''IOP'' []
     = [(''levelOfCare'', JStr ''IOP''), (''stateTreatedAt'', JStr []), (''payerName'', JStr []),
        (''payerClass'', JStr []), (''serviceYear'', JNum (Num 0)),
        (''paymentReceivedYear'', JNum (Num 0))]"
    by code_simp
  have b: "summaries (calculateMetrics exampleMetricsDb [] [])
       = [computedSummary ''IOP'' 5 [10, 20, 20, 30] []]"
    by code_simp
  have c: "getProp (computedSummary ''IOP'' 5 [10, 20, 20, 30] []) ''stateTreatedAt'' = JUndefined"
    by code_simp
  have d: "summaries (calculateMetrics exampleMetricsDb [computedSummary ''IOP'' 5 [10, 20, 20, 30] []] [])
       = [computedSummary ''IOP'' 5 [10, 20, 20, 30] [], computedSummary ''IOP'' 5 [10, 20, 20, 30] []]"
    by code_simp
  show ?thesis unfolding b using a c d by blast
qed
end
